theory Spec2Isabelle
  imports Complex_Main
begin

section \<open>Numbers, vectors and errors\<close>

text \<open>
  JavaScript numbers are modelled as exact reals: every statement below is about the
  arithmetic the code writes down, carried out without rounding. A thrown exception is a
  value of type \<open>js_error\<close> on the left of a sum. Where JavaScript would produce NaN or an
  infinity (a division by a zero scale, \<^verbatim>\<open>Math.acos\<close> outside [-1, 1]) there is no real
  number to continue with, and the model stops with \<open>NotANumber\<close>; the code itself does
  not throw there.
\<close>

datatype js_error = ReferenceError string | TypeError string | NotANumber string

datatype vec3 = Vec3 (vx: real) (vy: real) (vz: real)

record box3 =
  bmin :: vec3
  bmax :: vec3

section \<open>Vectors, quaternions and matrices of the 3D library\<close>

text \<open>
  The Stage code computes with the \<^verbatim>\<open>Vector3\<close>, \<^verbatim>\<open>Quaternion\<close> and \<^verbatim>\<open>Matrix4\<close> classes of
  THREE.js. Their methods are written out here as the library computes them. Every
  \<^verbatim>\<open>Matrix4\<close> the scene graph produces is affine (bottom row 0 0 0 1), so a matrix is
  its upper three rows \<open>n11 \<dots> n34\<close>; for such a matrix the determinant is the one of
  the upper-left 3 x 3 block, and \<^verbatim>\<open>getInverse\<close> returns the identity when it is zero.
\<close>

datatype quat = Quat (qx: real) (qy: real) (qz: real) (qw: real)

datatype mat4 = Mat4
  (n11: real) (n12: real) (n13: real) (n14: real)
  (n21: real) (n22: real) (n23: real) (n24: real)
  (n31: real) (n32: real) (n33: real) (n34: real)

definition identity :: mat4 where
  "identity = Mat4 1 0 0 0  0 1 0 0  0 0 1 0"

definition applyMatrix4 :: "mat4 \<Rightarrow> vec3 \<Rightarrow> vec3" where
  "applyMatrix4 m v =
     Vec3 (n11 m * vx v + n12 m * vy v + n13 m * vz v + n14 m)
          (n21 m * vx v + n22 m * vy v + n23 m * vz v + n24 m)
          (n31 m * vx v + n32 m * vy v + n33 m * vz v + n34 m)"

definition multiplyMatrices :: "mat4 \<Rightarrow> mat4 \<Rightarrow> mat4" where
  "multiplyMatrices a b =
     Mat4 (n11 a * n11 b + n12 a * n21 b + n13 a * n31 b)
          (n11 a * n12 b + n12 a * n22 b + n13 a * n32 b)
          (n11 a * n13 b + n12 a * n23 b + n13 a * n33 b)
          (n11 a * n14 b + n12 a * n24 b + n13 a * n34 b + n14 a)
          (n21 a * n11 b + n22 a * n21 b + n23 a * n31 b)
          (n21 a * n12 b + n22 a * n22 b + n23 a * n32 b)
          (n21 a * n13 b + n22 a * n23 b + n23 a * n33 b)
          (n21 a * n14 b + n22 a * n24 b + n23 a * n34 b + n24 a)
          (n31 a * n11 b + n32 a * n21 b + n33 a * n31 b)
          (n31 a * n12 b + n32 a * n22 b + n33 a * n32 b)
          (n31 a * n13 b + n32 a * n23 b + n33 a * n33 b)
          (n31 a * n14 b + n32 a * n24 b + n33 a * n34 b + n34 a)"

definition determinant :: "mat4 \<Rightarrow> real" where
  "determinant m =
     n11 m * (n22 m * n33 m - n23 m * n32 m)
     - n12 m * (n21 m * n33 m - n23 m * n31 m)
     + n13 m * (n21 m * n32 m - n22 m * n31 m)"

definition getInverse :: "mat4 \<Rightarrow> mat4" where
  "getInverse m =
     (let det = determinant m in
      if det = 0 then identity
      else
        let detInv = 1 / det;
            i11 = (n22 m * n33 m - n23 m * n32 m) * detInv;
            i12 = (n13 m * n32 m - n12 m * n33 m) * detInv;
            i13 = (n12 m * n23 m - n13 m * n22 m) * detInv;
            i21 = (n23 m * n31 m - n21 m * n33 m) * detInv;
            i22 = (n11 m * n33 m - n13 m * n31 m) * detInv;
            i23 = (n13 m * n21 m - n11 m * n23 m) * detInv;
            i31 = (n21 m * n32 m - n22 m * n31 m) * detInv;
            i32 = (n12 m * n31 m - n11 m * n32 m) * detInv;
            i33 = (n11 m * n22 m - n12 m * n21 m) * detInv
        in Mat4 i11 i12 i13 (- (i11 * n14 m + i12 * n24 m + i13 * n34 m))
                i21 i22 i23 (- (i21 * n14 m + i22 * n24 m + i23 * n34 m))
                i31 i32 i33 (- (i31 * n14 m + i32 * n24 m + i33 * n34 m)))"

definition compose :: "vec3 \<Rightarrow> quat \<Rightarrow> vec3 \<Rightarrow> mat4" where
  "compose position quaternion scale =
     (let x = qx quaternion; y = qy quaternion; z = qz quaternion; w = qw quaternion;
          x2 = x + x; y2 = y + y; z2 = z + z;
          xx = x * x2; xy = x * y2; xz = x * z2;
          yy = y * y2; yz = y * z2; zz = z * z2;
          wx = w * x2; wy = w * y2; wz = w * z2;
          sx = vx scale; sy = vy scale; sz = vz scale
      in Mat4 ((1 - (yy + zz)) * sx) ((xy - wz) * sy) ((xz + wy) * sz) (vx position)
              ((xy + wz) * sx) ((1 - (xx + zz)) * sy) ((yz - wx) * sz) (vy position)
              ((xz - wy) * sx) ((yz + wx) * sy) ((1 - (xx + yy)) * sz) (vz position))"


text \<open>
  The vector and quaternion methods that \<^verbatim>\<open>layObjectFlat\<close> calls. \<^verbatim>\<open>Quaternion.inverse\<close>
  is the conjugate (the library assumes unit length); \<^verbatim>\<open>Vector3.applyQuaternion\<close> computes
  q v q* in two steps; \<^verbatim>\<open>setFromUnitVectors\<close> builds the shortest-arc rotation and falls back
  to a half turn about a perpendicular axis when the two vectors are within \<^verbatim>\<open>EPS\<close> of
  opposite; \<^verbatim>\<open>Matrix4.decompose\<close> reads the scale off the column lengths (negating the first
  when the determinant is negative), divides the columns by it and converts the remaining
  rotation matrix with \<^verbatim>\<open>setFromRotationMatrix\<close>.
\<close>

definition dot :: "vec3 \<Rightarrow> vec3 \<Rightarrow> real" where
  "dot a b = vx a * vx b + vy a * vy b + vz a * vz b"

definition vlength :: "vec3 \<Rightarrow> real" where
  "vlength v = sqrt (vx v * vx v + vy v * vy v + vz v * vz v)"

definition applyQuaternion :: "vec3 \<Rightarrow> quat \<Rightarrow> vec3" where
  "applyQuaternion v q =
     (let x = vx v; y = vy v; z = vz v;
          ix = qw q * x + qy q * z - qz q * y;
          iy = qw q * y + qz q * x - qx q * z;
          iz = qw q * z + qx q * y - qy q * x;
          iw = - qx q * x - qy q * y - qz q * z
      in Vec3 (ix * qw q + iw * - qx q + iy * - qz q - iz * - qy q)
              (iy * qw q + iw * - qy q + iz * - qx q - ix * - qz q)
              (iz * qw q + iw * - qz q + ix * - qy q - iy * - qx q))"

definition inverse_quat :: "quat \<Rightarrow> quat" where
  "inverse_quat q = Quat (qx q * - 1) (qy q * - 1) (qz q * - 1) (qw q)"

definition multiplyQuaternions :: "quat \<Rightarrow> quat \<Rightarrow> quat" where
  "multiplyQuaternions a b =
     Quat (qx a * qw b + qw a * qx b + qy a * qz b - qz a * qy b)
          (qy a * qw b + qw a * qy b + qz a * qx b - qx a * qz b)
          (qz a * qw b + qw a * qz b + qx a * qy b - qy a * qx b)
          (qw a * qw b - qx a * qx b - qy a * qy b - qz a * qz b)"

definition qlength :: "quat \<Rightarrow> real" where
  "qlength q = sqrt (qx q * qx q + qy q * qy q + qz q * qz q + qw q * qw q)"

definition normalize_quat :: "quat \<Rightarrow> quat" where
  "normalize_quat q =
     (let l = qlength q in
      if l = 0 then Quat 0 0 0 1
      else let l' = 1 / l in Quat (qx q * l') (qy q * l') (qz q * l') (qw q * l'))"

definition EPS :: real where
  "EPS = 1 / 1000000"

definition setFromUnitVectors :: "vec3 \<Rightarrow> vec3 \<Rightarrow> quat" where
  "setFromUnitVectors vFrom vTo =
     (let r = dot vFrom vTo + 1 in
      if r < EPS then
        (if \<bar>vx vFrom\<bar> > \<bar>vz vFrom\<bar>
         then normalize_quat (Quat (- vy vFrom) (vx vFrom) 0 0)
         else normalize_quat (Quat 0 (- vz vFrom) (vy vFrom) 0))
      else
        normalize_quat (Quat (vy vFrom * vz vTo - vz vFrom * vy vTo)
                        (vz vFrom * vx vTo - vx vFrom * vz vTo)
                        (vx vFrom * vy vTo - vy vFrom * vx vTo)
                        r))"

definition setFromRotationMatrix :: "mat4 \<Rightarrow> quat" where
  "setFromRotationMatrix m =
     (let m11 = n11 m; m12 = n12 m; m13 = n13 m;
          m21 = n21 m; m22 = n22 m; m23 = n23 m;
          m31 = n31 m; m32 = n32 m; m33 = n33 m;
          trace = m11 + m22 + m33
      in if trace > 0 then
           (let s = 0.5 / sqrt (trace + 1.0)
            in Quat ((m32 - m23) * s) ((m13 - m31) * s) ((m21 - m12) * s) (0.25 / s))
         else if m11 > m22 \<and> m11 > m33 then
           (let s = 2.0 * sqrt (1.0 + m11 - m22 - m33)
            in Quat (0.25 * s) ((m12 + m21) / s) ((m13 + m31) / s) ((m32 - m23) / s))
         else if m22 > m33 then
           (let s = 2.0 * sqrt (1.0 + m22 - m11 - m33)
            in Quat ((m12 + m21) / s) (0.25 * s) ((m23 + m32) / s) ((m13 - m31) / s))
         else
           (let s = 2.0 * sqrt (1.0 + m33 - m11 - m22)
            in Quat ((m13 + m31) / s) ((m23 + m32) / s) (0.25 * s) ((m21 - m12) / s)))"

definition decompose :: "mat4 \<Rightarrow> js_error + (vec3 \<times> quat \<times> vec3)" where
  "decompose m =
     (let sx0 = vlength (Vec3 (n11 m) (n21 m) (n31 m));
          sy = vlength (Vec3 (n12 m) (n22 m) (n32 m));
          sz = vlength (Vec3 (n13 m) (n23 m) (n33 m));
          det = determinant m;
          sx = (if det < 0 then - sx0 else sx0)
      in if sx = 0 \<or> sy = 0 \<or> sz = 0 then Inl (NotANumber ''decompose'')
         else
           let invSX = 1 / sx; invSY = 1 / sy; invSZ = 1 / sz;
               m1 = Mat4 (n11 m * invSX) (n12 m * invSY) (n13 m * invSZ) (n14 m)
                         (n21 m * invSX) (n22 m * invSY) (n23 m * invSZ) (n24 m)
                         (n31 m * invSX) (n32 m * invSY) (n33 m * invSZ) (n34 m)
           in Inr (Vec3 (n14 m) (n24 m) (n34 m), setFromRotationMatrix m1, Vec3 sx sy sz))"

section \<open>Scene objects\<close>

text \<open>
  An \<^verbatim>\<open>Object3D\<close> has a pose (position, quaternion, scale), the cached \<^verbatim>\<open>matrixWorld\<close>,
  and children. A mesh (a \<^verbatim>\<open>PrintableObject\<close>) also carries its convex hull, a geometry
  with vertices and faces; a plain group (the \<^verbatim>\<open>SelectionGroup\<close>) has none.
  \<^verbatim>\<open>updateMatrixWorld\<close> recomputes the cached world matrix of an object and of all its
  descendants from the parent's cached world matrix.
\<close>

datatype face3 = Face3 (fa: nat) (fb: nat) (fc: nat) (normal: vec3)

record geometry =
  vertices :: "vec3 list"
  faces :: "face3 list"

datatype object3d = Object3D
  (position: vec3) (quaternion: quat) (scale: vec3) (matrixWorld: mat4)
  (obj_hull: "geometry option") (children: "object3d list")

fun updateMatrixWorld :: "mat4 \<Rightarrow> object3d \<Rightarrow> object3d" where
  "updateMatrixWorld parentWorld (Object3D p q s w h cs) =
     (let w' = multiplyMatrices parentWorld (compose p q s)
      in Object3D p q s w' h (map (updateMatrixWorld w') cs))"


section \<open>Stage: bed coordinates, lowest point, drop to floor\<close>

text \<open>
  \<^verbatim>\<open>bedRelative\<close> is represented by its cached world matrix. In \<^verbatim>\<open>dropObjectToFloor\<close> the
  object is a child of \<^verbatim>\<open>bedRelative\<close> (a printable object added with
  \<^verbatim>\<open>bedRelative.add(obj)\<close>, or the selection group added with
  \<^verbatim>\<open>bedRelative.add(selectedGroup)\<close>), so \<^verbatim>\<open>obj.updateMatrixWorld()\<close> starts from that
  matrix. \<^verbatim>\<open>forEach_vertex\<close> is the \<^verbatim>\<open>geometry.vertices.forEach\<close> loop of
  \<^verbatim>\<open>findLowestPoint\<close>; \<^verbatim>\<open>traverse_lowest\<close> is the \<^verbatim>\<open>obj.traverse\<close> callback of
  \<^verbatim>\<open>dropObjectToFloor\<close>, visiting the object first and then its children in order.
  When no mesh was visited \<^verbatim>\<open>lowestPoint\<close> stays undefined and reading \<^verbatim>\<open>lowestPoint.z\<close>
  throws.
\<close>

definition localToWorld :: "object3d \<Rightarrow> vec3 \<Rightarrow> vec3" where
  "localToWorld obj v = applyMatrix4 (matrixWorld obj) v"

definition worldToLocal :: "mat4 \<Rightarrow> vec3 \<Rightarrow> vec3" where
  "worldToLocal world v = applyMatrix4 (getInverse world) v"

definition localToBed :: "mat4 \<Rightarrow> object3d \<Rightarrow> vec3 \<Rightarrow> vec3" where
  "localToBed bedRelative child v = worldToLocal bedRelative (localToWorld child v)"

record lowest_point =
  lp_object :: object3d
  lp_vertex :: vec3
  lp_index :: nat
  lp_z :: real

fun forEach_vertex ::
  "mat4 \<Rightarrow> object3d \<Rightarrow> vec3 list \<Rightarrow> nat \<Rightarrow> lowest_point option \<Rightarrow> lowest_point option" where
  "forEach_vertex bedRelative object [] i lowestPoint = lowestPoint"
| "forEach_vertex bedRelative object (v # vs) i lowestPoint =
     (let vector = localToBed bedRelative object v
      in forEach_vertex bedRelative object vs (Suc i)
           (case lowestPoint of
              None \<Rightarrow> Some \<lparr>lp_object = object, lp_vertex = v, lp_index = i, lp_z = vz vector\<rparr>
            | Some lp \<Rightarrow>
                if vz vector < lp_z lp
                then Some \<lparr>lp_object = object, lp_vertex = v, lp_index = i, lp_z = vz vector\<rparr>
                else Some lp))"

definition findLowestPoint ::
  "mat4 \<Rightarrow> object3d \<Rightarrow> geometry \<Rightarrow> lowest_point option \<Rightarrow> lowest_point option" where
  "findLowestPoint bedRelative object geometry lowestPoint =
     forEach_vertex bedRelative object (vertices geometry) 0 lowestPoint"

fun traverse_lowest :: "mat4 \<Rightarrow> object3d \<Rightarrow> lowest_point option \<Rightarrow> lowest_point option" where
  "traverse_lowest bedRelative (Object3D p q s w h cs) lowestPoint =
     fold (traverse_lowest bedRelative) cs
       (case h of
          None \<Rightarrow> lowestPoint
        | Some g \<Rightarrow> findLowestPoint bedRelative (Object3D p q s w h cs) g lowestPoint)"

definition dropObjectToFloor :: "mat4 \<Rightarrow> object3d \<Rightarrow> js_error + object3d" where
  "dropObjectToFloor bedRelative obj =
     (let obj1 = updateMatrixWorld bedRelative obj
      in case traverse_lowest bedRelative obj1 None of
           None \<Rightarrow> Inl (TypeError ''lowestPoint is undefined'')
         | Some lowestPoint \<Rightarrow>
             Inr (Object3D
                    (Vec3 (vx (position obj1)) (vy (position obj1))
                          (vz (position obj1) - lp_z lowestPoint))
                    (quaternion obj1) (scale obj1) (matrixWorld obj1) (obj_hull obj1)
                    (children obj1)))"


text \<open>
  What the claims observe: the bed-space heights of all hull vertices below an object
  (read through the cached world matrices), the hull vertices themselves, and the same
  heights computed from the poses alone, relative to a matrix \<open>A\<close> of the parent.
\<close>

fun hull_heights :: "mat4 \<Rightarrow> object3d \<Rightarrow> real list" where
  "hull_heights bedRelative (Object3D p q s w h cs) =
     (case h of
        None \<Rightarrow> []
      | Some g \<Rightarrow> map (\<lambda>v. vz (localToBed bedRelative (Object3D p q s w h cs) v)) (vertices g))
     @ concat (map (hull_heights bedRelative) cs)"

fun hull_points :: "object3d \<Rightarrow> vec3 list" where
  "hull_points (Object3D p q s w h cs) =
     (case h of None \<Rightarrow> [] | Some g \<Rightarrow> vertices g) @ concat (map hull_points cs)"

fun local_heights :: "mat4 \<Rightarrow> object3d \<Rightarrow> real list" where
  "local_heights A (Object3D p q s w h cs) =
     (case h of
        None \<Rightarrow> []
      | Some g \<Rightarrow> map (\<lambda>v. vz (applyMatrix4 (multiplyMatrices A (compose p q s)) v)) (vertices g))
     @ concat (map (local_heights (multiplyMatrices A (compose p q s))) cs)"

definition lowerZ :: "real \<Rightarrow> mat4 \<Rightarrow> mat4" where
  "lowerZ d m = Mat4 (n11 m) (n12 m) (n13 m) (n14 m) (n21 m) (n22 m) (n23 m) (n24 m)
                     (n31 m) (n32 m) (n33 m) (n34 m - d)"

definition lower_step :: "real \<Rightarrow> real option \<Rightarrow> real option" where
  "lower_step z acc = (case acc of None \<Rightarrow> Some z | Some m \<Rightarrow> if z < m then Some z else Some m)"


section \<open>Stage: lay flat\<close>

text \<open>
  \<^verbatim>\<open>layObjectFlat\<close> in two parts. \<^verbatim>\<open>layflat_candidates\<close> is steps 1 to 4: the lowest hull
  vertex (read through the cached world matrix), the world quaternion from
  \<^verbatim>\<open>obj.matrixWorld.decompose\<close>, the \<^verbatim>\<open>faces.forEach\<close> loop that pushes a candidate for every
  face with the pivot among its three corners, and the sort by angle.
  \<^verbatim>\<open>Array.prototype.sort\<close> is stable, as \<^verbatim>\<open>sort_key\<close> is. \<^verbatim>\<open>layObjectFlat\<close> then takes
  \<^verbatim>\<open>candidates[0]\<close> (a \<^verbatim>\<open>TypeError\<close> when there is none), rotates the down vector into
  object coordinates, multiplies \<^verbatim>\<open>obj.quaternion\<close> on the right by the rotation from the
  chosen normal to that vector, and drops the object to the floor. The object is a child
  of \<^verbatim>\<open>bedRelative\<close>, as in \<^verbatim>\<open>dropObjectToFloor\<close>.

  Numbers are exact reals. \<^verbatim>\<open>Math.acos\<close> returns \<^verbatim>\<open>NaN\<close> for an argument outside the
  interval from -1 to 1; a \<^verbatim>\<open>NaN\<close> angle makes the comparator of the sort inconsistent,
  the order of the candidates is then left to the engine, and the model stops there with
  \<^verbatim>\<open>NotANumber\<close>. In exact arithmetic the dot product of a unit normal turned by a unit
  quaternion stays within the interval. In double arithmetic it can come out one unit in
  the last place above 1 for a face that points straight down, and \<^verbatim>\<open>Math.acos\<close> then
  returns \<^verbatim>\<open>NaN\<close> for the very face the object rests on; exact reals do not show this.
  The concrete objects below have dot products far from 1 and -1, where rounding does
  not change which face is taken.
\<close>

definition Math_acos :: "real \<Rightarrow> js_error + real" where
  "Math_acos x =
     (if - 1 \<le> x \<and> x \<le> 1 then Inr (arccos x) else Inl (NotANumber ''Math.acos''))"

record candidate =
  angle :: real
  cnormal :: vec3

definition touches :: "nat \<Rightarrow> face3 \<Rightarrow> bool" where
  "touches index face = (index = fa face \<or> index = fb face \<or> index = fc face)"

definition downVector :: vec3 where
  "downVector = Vec3 0 (- 1) 0"

definition candidate_of :: "quat \<Rightarrow> face3 \<Rightarrow> js_error + candidate" where
  "candidate_of q face =
     (case Math_acos (dot (applyQuaternion (normal face) q) downVector) of
        Inl e \<Rightarrow> Inl e
      | Inr a \<Rightarrow> Inr \<lparr>angle = a, cnormal = normal face\<rparr>)"

fun forEach_face :: "lowest_point option \<Rightarrow> quat \<Rightarrow> face3 list \<Rightarrow> candidate list
    \<Rightarrow> js_error + candidate list" where
  "forEach_face pivot q [] candidates = Inr candidates"
| "forEach_face pivot q (face # fs) candidates =
     (case pivot of
        None \<Rightarrow> Inl (TypeError ''pivot is undefined'')
      | Some p \<Rightarrow>
          if touches (lp_index p) face
          then (case candidate_of q face of
                  Inl e \<Rightarrow> Inl e
                | Inr c \<Rightarrow> forEach_face pivot q fs (candidates @ [c]))
          else forEach_face pivot q fs candidates)"

definition layflat_candidates :: "mat4 \<Rightarrow> object3d \<Rightarrow> js_error + (quat \<times> candidate list)" where
  "layflat_candidates bedRelative obj =
     (case obj_hull obj of
        None \<Rightarrow> Inl (TypeError ''geometry is undefined'')
      | Some geometry \<Rightarrow>
     (let pivot = findLowestPoint bedRelative obj geometry None
      in case decompose (matrixWorld obj) of
        Inl e \<Rightarrow> Inl e
      | Inr (vector, q, vector') \<Rightarrow>
     (case forEach_face pivot q (faces geometry) [] of
        Inl e \<Rightarrow> Inl e
      | Inr candidates \<Rightarrow> Inr (q, sort_key angle candidates))))"

definition layObjectFlat :: "mat4 \<Rightarrow> object3d \<Rightarrow> js_error + object3d" where
  "layObjectFlat bedRelative obj =
     (case layflat_candidates bedRelative obj of
        Inl e \<Rightarrow> Inl e
      | Inr (q, candidates) \<Rightarrow>
     (case candidates of
        [] \<Rightarrow> Inl (TypeError ''candidates[0] is undefined'')
      | c # _ \<Rightarrow>
     (let downVector1 = applyQuaternion downVector (inverse_quat q);
          q2 = setFromUnitVectors (cnormal c) downVector1
      in dropObjectToFloor bedRelative
           (Object3D (position obj) (multiplyQuaternions (quaternion obj) q2)
              (scale obj) (matrixWorld obj) (obj_hull obj) (children obj)))))"

text \<open>
  For the statements about \<^verbatim>\<open>layObjectFlat\<close>: the angle of a face under a world quaternion
  and whether \<^verbatim>\<open>Math.acos\<close> is defined for it; the orientation the specification asks for,
  in its own words (the shortest-arc rotation from the chosen normal, taken in world
  space, to world down, multiplied on the left of the existing world orientation); the
  linear part of a matrix applied to a direction; and the algebra of quaternions (cross
  product, squared norm, scaling, the arc before normalisation, the rotation matrix of a
  quaternion).
\<close>

definition face_angle :: "quat \<Rightarrow> face3 \<Rightarrow> real" where
  "face_angle q face = arccos (dot (applyQuaternion (normal face) q) downVector)"

definition in_range :: "quat \<Rightarrow> face3 \<Rightarrow> bool" where
  "in_range q face =
     (- 1 \<le> dot (applyQuaternion (normal face) q) downVector
      \<and> dot (applyQuaternion (normal face) q) downVector \<le> 1)"

definition spec_layFlat_orientation :: "quat \<Rightarrow> vec3 \<Rightarrow> quat" where
  "spec_layFlat_orientation orientation n =
     multiplyQuaternions (setFromUnitVectors (applyQuaternion n orientation) downVector)
       orientation"

definition carry_direction :: "mat4 \<Rightarrow> vec3 \<Rightarrow> vec3" where
  "carry_direction m v =
     Vec3 (n11 m * vx v + n12 m * vy v + n13 m * vz v)
          (n21 m * vx v + n22 m * vy v + n23 m * vz v)
          (n31 m * vx v + n32 m * vy v + n33 m * vz v)"

definition cross :: "vec3 \<Rightarrow> vec3 \<Rightarrow> vec3" where
  "cross a b = Vec3 (vy a * vz b - vz a * vy b) (vz a * vx b - vx a * vz b) (vx a * vy b - vy a * vx b)"

definition qnorm2 :: "quat \<Rightarrow> real" where
  "qnorm2 q = qx q * qx q + qy q * qy q + qz q * qz q + qw q * qw q"

definition qscale :: "real \<Rightarrow> quat \<Rightarrow> quat" where
  "qscale k q = Quat (qx q * k) (qy q * k) (qz q * k) (qw q * k)"

definition arc0 :: "vec3 \<Rightarrow> vec3 \<Rightarrow> quat" where
  "arc0 a b = Quat (vy a * vz b - vz a * vy b) (vz a * vx b - vx a * vz b)
                   (vx a * vy b - vy a * vx b) (dot a b + 1)"

definition rotm :: "quat \<Rightarrow> mat4" where
  "rotm q =
     Mat4 (qw q * qw q + qx q * qx q - qy q * qy q - qz q * qz q)
          (2 * (qx q * qy q - qw q * qz q))
          (2 * (qx q * qz q + qw q * qy q))
          0
          (2 * (qx q * qy q + qw q * qz q))
          (qw q * qw q - qx q * qx q + qy q * qy q - qz q * qz q)
          (2 * (qy q * qz q - qw q * qx q))
          0
          (2 * (qx q * qz q - qw q * qy q))
          (2 * (qy q * qz q + qw q * qx q))
          (qw q * qw q - qx q * qx q - qy q * qy q + qz q * qz q)
          0"

text \<open>
  The hull for the concrete cases: a prism with a right triangle as cross-section. Placed
  without rotation it stands on the edge between the vertices 0 and 3, with the slanted
  face (vertices 0, 1, 4, 3) tilted against the bed.
\<close>

definition prism :: geometry where
  "prism = \<lparr>vertices = [Vec3 0 0 0, Vec3 7 0 24, Vec3 0 0 24, Vec3 0 10 0, Vec3 7 10 24, Vec3 0 10 24],
             faces = [Face3 0 2 1 (Vec3 0 (- 1) 0),
                      Face3 0 3 5 (Vec3 (- 1) 0 0),
                      Face3 0 5 2 (Vec3 (- 1) 0 0),
                      Face3 0 1 4 (Vec3 (24 / 25) 0 (- (7 / 25))),
                      Face3 0 4 3 (Vec3 (24 / 25) 0 (- (7 / 25))),
                      Face3 3 4 5 (Vec3 0 1 0),
                      Face3 2 5 4 (Vec3 0 0 1),
                      Face3 2 4 1 (Vec3 0 0 1)]\<rparr>"

section \<open>Stage.getAllGeometry over an explicit store\<close>

text \<open>
  \<^verbatim>\<open>getAllGeometry\<close> clones and then mutates in place, so here the objects of the heap are
  cells of a store and a reference is an index into it. A geometry cell holds the vertices
  and the bounding box (not computed, empty, or a box); \<^verbatim>\<open>clone\<close> appends a copy of a cell
  and returns its address (the library's \<^verbatim>\<open>Geometry.clone\<close> copies every vertex, and
  \<^verbatim>\<open>Matrix4.clone\<close> every element). \<^verbatim>\<open>applyMatrix\<close> transforms the vertices of the geometry
  it is called on and recomputes a bounding box that was there; \<^verbatim>\<open>computeBoundingBox\<close>
  sets the box from the vertices. A printable object is known by the addresses of its
  geometry, cached world matrix, position, quaternion and scale. \<^verbatim>\<open>bake\<close> is the body of
  the arrow function passed to \<^verbatim>\<open>objects.map\<close>.
\<close>

datatype bounding = NotComputed | EmptyBox | Box box3

datatype cell =
    GeometryCell "vec3 list" bounding
  | Matrix4Cell mat4
  | Vector3Cell vec3
  | QuaternionCell quat

type_synonym store = "cell list"

record object_ref =
  geometry_at :: nat
  matrixWorld_at :: nat
  position_at :: nat
  quaternion_at :: nat
  scale_at :: nat

definition clone :: "store \<Rightarrow> nat \<Rightarrow> js_error + (nat \<times> store)" where
  "clone s a =
     (if a < length s then Inr (length s, s @ [s ! a])
      else Inl (TypeError ''clone of undefined''))"

definition matrix_at :: "store \<Rightarrow> nat \<Rightarrow> js_error + mat4" where
  "matrix_at s a =
     (if a < length s
      then (case s ! a of Matrix4Cell m \<Rightarrow> Inr m | _ \<Rightarrow> Inl (TypeError ''not a Matrix4''))
      else Inl (TypeError ''undefined''))"

definition setFromPoints :: "vec3 list \<Rightarrow> bounding" where
  "setFromPoints vs =
     (case vs of
        [] \<Rightarrow> EmptyBox
      | v # ws \<Rightarrow>
          Box \<lparr>bmin = Vec3 (fold min (map vx ws) (vx v)) (fold min (map vy ws) (vy v))
                             (fold min (map vz ws) (vz v)),
               bmax = Vec3 (fold max (map vx ws) (vx v)) (fold max (map vy ws) (vy v))
                             (fold max (map vz ws) (vz v))\<rparr>)"

definition applyMatrix :: "store \<Rightarrow> nat \<Rightarrow> mat4 \<Rightarrow> js_error + store" where
  "applyMatrix s g m =
     (if g < length s
      then (case s ! g of
              GeometryCell vs b \<Rightarrow>
                Inr (s[g := GeometryCell (map (applyMatrix4 m) vs)
                              (if b = NotComputed then NotComputed
                               else setFromPoints (map (applyMatrix4 m) vs))])
            | _ \<Rightarrow> Inl (TypeError ''applyMatrix is not a function''))
      else Inl (TypeError ''undefined''))"

definition computeBoundingBox :: "store \<Rightarrow> nat \<Rightarrow> js_error + store" where
  "computeBoundingBox s g =
     (if g < length s
      then (case s ! g of
              GeometryCell vs b \<Rightarrow> Inr (s[g := GeometryCell vs (setFromPoints vs)])
            | _ \<Rightarrow> Inl (TypeError ''computeBoundingBox is not a function''))
      else Inl (TypeError ''undefined''))"

definition bake :: "nat \<Rightarrow> store \<Rightarrow> object_ref \<Rightarrow> js_error + (nat \<times> store)" where
  "bake bedRelative s obj =
     (case clone s (geometry_at obj) of
        Inl e \<Rightarrow> Inl e
      | Inr (geometry, s1) \<Rightarrow>
     (case clone s1 (matrixWorld_at obj) of
        Inl e \<Rightarrow> Inl e
      | Inr (transform, s2) \<Rightarrow>
     (let worldToPrinterRepresentation = length s2;
          s3 = s2 @ [Matrix4Cell identity]
      in case matrix_at s3 bedRelative of
        Inl e \<Rightarrow> Inl e
      | Inr b \<Rightarrow>
     (let s4 = s3[worldToPrinterRepresentation := Matrix4Cell (getInverse b)]
      in case matrix_at s4 worldToPrinterRepresentation of
        Inl e \<Rightarrow> Inl e
      | Inr w \<Rightarrow>
     (case matrix_at s4 transform of
        Inl e \<Rightarrow> Inl e
      | Inr t \<Rightarrow>
     (let s5 = s4[transform := Matrix4Cell (multiplyMatrices w t)]
      in case matrix_at s5 transform of
        Inl e \<Rightarrow> Inl e
      | Inr t' \<Rightarrow>
     (case applyMatrix s5 geometry t' of
        Inl e \<Rightarrow> Inl e
      | Inr s6 \<Rightarrow>
     (case computeBoundingBox s6 geometry of
        Inl e \<Rightarrow> Inl e
      | Inr s7 \<Rightarrow> Inr (geometry, s7)))))))))"

fun getAllGeometry :: "nat \<Rightarrow> store \<Rightarrow> object_ref list \<Rightarrow> js_error + (nat list \<times> store)" where
  "getAllGeometry bedRelative s [] = Inr ([], s)"
| "getAllGeometry bedRelative s (obj # objects) =
     (case bake bedRelative s obj of
        Inl e \<Rightarrow> Inl e
      | Inr (geometry, s') \<Rightarrow>
          (case getAllGeometry bedRelative s' objects of
             Inl e \<Rightarrow> Inl e
           | Inr (geometries, s'') \<Rightarrow> Inr (geometry # geometries, s'')))"

definition well_formed :: "store \<Rightarrow> nat \<Rightarrow> object_ref \<Rightarrow> bool" where
  "well_formed s bedRelative obj =
     ((\<exists>vs b. geometry_at obj < length s \<and> s ! geometry_at obj = GeometryCell vs b)
      \<and> (\<exists>m. matrixWorld_at obj < length s \<and> s ! matrixWorld_at obj = Matrix4Cell m)
      \<and> (\<exists>m. bedRelative < length s \<and> s ! bedRelative = Matrix4Cell m))"

definition baked :: "store \<Rightarrow> nat \<Rightarrow> object_ref \<Rightarrow> cell" where
  "baked s bedRelative obj =
     (case (s ! geometry_at obj, s ! matrixWorld_at obj, s ! bedRelative) of
        (GeometryCell vs b, Matrix4Cell m, Matrix4Cell bed) \<Rightarrow>
          GeometryCell (map (applyMatrix4 (multiplyMatrices (getInverse bed) m)) vs)
            (setFromPoints (map (applyMatrix4 (multiplyMatrices (getInverse bed) m)) vs))
      | _ \<Rightarrow> GeometryCell [] NotComputed)"


section \<open>Stage: the packing run\<close>

text \<open>
  The part of the Stage state the packing run depends on: the object list, the members of
  the selection group, and the variable \<^verbatim>\<open>packer\<close>. A \<^verbatim>\<open>CirclePacker\<close> instance is known by
  a number; \<^verbatim>\<open>running\<close> lists the instances constructed and not yet destroyed, and
  \<^verbatim>\<open>calls\<close> records, in order, every constructor call, \<^verbatim>\<open>update()\<close> and \<^verbatim>\<open>destroy()\<close> the
  Stage makes on the library. The circles handed to the constructor play no part in the
  life cycle and are left out. \<^verbatim>\<open>packingUpdate\<close> and \<^verbatim>\<open>packingFinished\<close> are the \<^verbatim>\<open>onMove\<close>
  and \<^verbatim>\<open>onMoveEnd\<close> callbacks; a run calls them only while it has not been destroyed.

  \<^verbatim>\<open>selectNone\<close> calls \<^verbatim>\<open>selectedGroup.selectNone()\<close>, clears the outline and detaches the
  transform control.
  Modelled from the spec: \<^verbatim>\<open>SelectionGroup.selectNone\<close> and \<^verbatim>\<open>SelectionGroup.addToSelection\<close>
  are not among the sources; following section 4.6 the first empties the membership and
  the second adds the object to it.
\<close>

datatype packer_call = New nat | Update nat | Destroy nat

record stage =
  objects :: "object3d list"
  selection :: "nat list"
  packer :: "nat option"
  running :: "nat list"
  calls :: "packer_call list"

definition Stage :: stage where
  "Stage = \<lparr>objects = [], selection = [], packer = None, running = [], calls = []\<rparr>"

definition selectNone :: "stage \<Rightarrow> stage" where
  "selectNone s = s\<lparr>selection := []\<rparr>"

definition addObjectToSelection :: "nat \<Rightarrow> stage \<Rightarrow> stage" where
  "addObjectToSelection obj s = s\<lparr>selection := selection s @ [obj]\<rparr>"

definition packingFinished :: "stage \<Rightarrow> js_error + stage" where
  "packingFinished s =
     (case packer s of
        None \<Rightarrow> Inl (TypeError ''packer is null'')
      | Some p \<Rightarrow>
          Inr (s\<lparr>running := removeAll p (running s),
                 calls := calls s @ [Destroy p],
                 packer := None\<rparr>))"

definition move_object :: "real \<Rightarrow> real \<Rightarrow> object3d \<Rightarrow> object3d" where
  "move_object dx dy object =
     Object3D (Vec3 (vx (position object) + dx) (vy (position object) + dy) (vz (position object)))
       (quaternion object) (scale object) (matrixWorld object) (obj_hull object) (children object)"

fun packingUpdate :: "(nat \<times> real \<times> real) list \<Rightarrow> stage \<Rightarrow> js_error + stage" where
  "packingUpdate [] s = Inr s"
| "packingUpdate ((index, dx, dy) # updatedCircles) s =
     (if index < length (objects s)
      then packingUpdate updatedCircles
             (s\<lparr>objects := (objects s)[index := move_object dx dy (objects s ! index)]\<rparr>)
      else Inl (TypeError ''object is undefined''))"

definition new_packer :: "stage \<Rightarrow> nat" where
  "new_packer s = length (calls s)"

definition arrangeObjectsOnPlatform :: "stage \<Rightarrow> js_error + stage" where
  "arrangeObjectsOnPlatform s =
     (case (if packer s \<noteq> None then packingFinished s else Inr s) of
        Inl e \<Rightarrow> Inl e
      | Inr s1 \<Rightarrow>
          let s2 = selectNone s1;
              p = new_packer s2
          in Inr (s2\<lparr>packer := Some p,
                      running := running s2 @ [p],
                      calls := calls s2 @ [New p, Update p]\<rparr>))"

definition removeObjects :: "stage \<Rightarrow> stage" where
  "removeObjects s = (selectNone s)\<lparr>objects := []\<rparr>"

inductive reachable :: "stage \<Rightarrow> bool" where
  start: "reachable Stage"
| arrange: "reachable s \<Longrightarrow> arrangeObjectsOnPlatform s = Inr t \<Longrightarrow> reachable t"
| add: "reachable s \<Longrightarrow> arrangeObjectsOnPlatform (s\<lparr>objects := objects s @ [obj]\<rparr>) = Inr t
          \<Longrightarrow> reachable t"
| remove: "reachable s \<Longrightarrow> reachable (removeObjects s)"
| deselect: "reachable s \<Longrightarrow> reachable (selectNone s)"
| select: "reachable s \<Longrightarrow> obj < length (objects s) \<Longrightarrow> reachable (addObjectToSelection obj s)"
| onMove: "reachable s \<Longrightarrow> p \<in> set (running s) \<Longrightarrow> packingUpdate updatedCircles s = Inr t
             \<Longrightarrow> reachable t"
| onMoveEnd: "reachable s \<Longrightarrow> p \<in> set (running s) \<Longrightarrow> packingFinished s = Inr t
             \<Longrightarrow> reachable t"

definition packer_inv :: "stage \<Rightarrow> bool" where
  "packer_inv s =
     (running s = (case packer s of None \<Rightarrow> [] | Some p \<Rightarrow> [p])
      \<and> (case packer s of None \<Rightarrow> True | Some p \<Rightarrow> p < length (calls s)))"


definition stage1 :: stage where
  "stage1 = \<lparr>objects = [], selection = [], packer = Some 0, running = [0],
              calls = [New 0, Update 0]\<rparr>"


section \<open>SettingsPanel.setPrintBounds\<close>

text \<open>
  \<^verbatim>\<open>bounds\<close> is a box with a \<^verbatim>\<open>min\<close> and a \<^verbatim>\<open>max\<close> corner. The three values read
  from the \<^verbatim>\<open>#machine_width\<close>, \<^verbatim>\<open>#machine_depth\<close> and \<^verbatim>\<open>#machine_height\<close> fields are
  passed in as numbers. The function only shows or hides the \<^verbatim>\<open>#gcode-out-of-bounds\<close>
  element; the model returns whether that element is shown.
\<close>

definition setPrintBounds :: "box3 \<Rightarrow> real \<Rightarrow> real \<Rightarrow> real \<Rightarrow> bool" where
  "setPrintBounds bounds machine_width machine_depth machine_height =
     (if vx (bmin bounds) < 0 \<or>
         vy (bmin bounds) < 0 \<or>
         vz (bmin bounds) < 0 \<or>
         vx (bmax bounds) > machine_width \<or>
         vy (bmax bounds) > machine_depth \<or>
         vy (bmax bounds) > machine_height
      then True else False)"

text \<open>The condition the specification gives for the warning, axis by axis.\<close>

definition outside_print_volume :: "box3 \<Rightarrow> real \<Rightarrow> real \<Rightarrow> real \<Rightarrow> bool" where
  "outside_print_volume bounds width depth height =
     (vx (bmin bounds) < 0 \<or> vy (bmin bounds) < 0 \<or> vz (bmin bounds) < 0 \<or>
      vx (bmax bounds) > width \<or> vy (bmax bounds) > depth \<or> vz (bmax bounds) > height)"

section \<open>SettingsPanel.onMirrorAxis\<close>

text \<open>
  \<^verbatim>\<open>stage.selection\<close> carries a position, Euler rotation angles and a scale. The method
  \<^verbatim>\<open>stage.onTransformEdit\<close> that \<^verbatim>\<open>onMirrorAxis\<close> calls last is not part of the Stage
  source at hand, so it is a parameter of the model.
\<close>

record selection =
  sel_position :: vec3
  sel_rotation :: vec3
  sel_scale :: vec3

definition onMirrorAxis :: "(selection \<Rightarrow> selection) \<Rightarrow> string \<Rightarrow> selection \<Rightarrow> selection" where
  "onMirrorAxis onTransformEdit axis s =
     onTransformEdit
       (if axis = ''X'' then s\<lparr>sel_scale := Vec3 (vx (sel_scale s) * (- 1)) (vy (sel_scale s)) (vz (sel_scale s))\<rparr>
        else if axis = ''Y'' then s\<lparr>sel_scale := Vec3 (vx (sel_scale s)) (vy (sel_scale s) * (- 1)) (vz (sel_scale s))\<rparr>
        else if axis = ''Z'' then s\<lparr>sel_scale := Vec3 (vx (sel_scale s)) (vy (sel_scale s)) (vz (sel_scale s) * (- 1))\<rparr>
        else s)"

definition axis_component :: "string \<Rightarrow> vec3 \<Rightarrow> real" where
  "axis_component axis v =
     (if axis = ''X'' then vx v else if axis = ''Y'' then vy v else vz v)"

section \<open>PrinterRepresentation constructor\<close>

text \<open>
  The constructor reads the printer description and builds the bed geometry, the walls,
  the shadow light and the bed-relative frame. An identifier is resolved against the
  global scope: the names the sources declare at top level, the two globals that
  \<^verbatim>\<open>RenderEngine\<close> assigns, and the host objects the sources use. A name that is not
  there raises a \<^verbatim>\<open>ReferenceError\<close>.
\<close>

record printer =
  circular :: bool
  origin_at_center :: bool
  x_width :: real
  y_depth :: real
  z_height :: real

definition global_scope :: "string list" where
  "global_scope =
     [''settings'', ''gcode_blob'', ''loaded_geometry'', ''SettingsPanel'', ''Stage'',
      ''PrinterRepresentation'', ''RenderEngine'', ''outlinePass'', ''controls'',
      ''THREE'', ''Math'', ''window'', ''document'', ''console'', ''localStorage'',
      ''stage'', ''slicer'', ''renderLoop'', ''geoLoader'', ''ProgressBar'',
      ''SettingsUI'', ''SelectionGroup'', ''PrintableObject'', ''CirclePacker'',
      ''GCodeParser'', ''toml'', ''alert'', ''parseInt'', ''parseFloat'',
      ''requestAnimationFrame'']"

definition resolve :: "string \<Rightarrow> js_error + string" where
  "resolve name = (if name \<in> set global_scope then Inr name else Inl (ReferenceError name))"

datatype bed_geometry =
    CircleBufferGeometry real nat
  | PlaneBufferGeometry real real nat

record printer_representation =
  floor_geometry :: bed_geometry
  wireframe_z :: real
  shadow_far :: real
  bedRelative_position :: vec3

definition bed_geometry_of :: "printer \<Rightarrow> js_error + bed_geometry" where
  "bed_geometry_of p =
     (if circular p then
        (case resolve ''min'' of
           Inl e \<Rightarrow> Inl e
         | Inr f \<Rightarrow> Inr (CircleBufferGeometry (min (x_width p) (y_depth p)) 64))
      else Inr (PlaneBufferGeometry (x_width p) (y_depth p) 1))"

definition PrinterRepresentation :: "printer \<Rightarrow> js_error + printer_representation" where
  "PrinterRepresentation p =
     (case bed_geometry_of p of
        Inl e \<Rightarrow> Inl e
      | Inr geometry \<Rightarrow>
          Inr \<lparr> floor_geometry = geometry,
                wireframe_z = z_height p / 2,
                shadow_far = z_height p + 1,
                bedRelative_position =
                  (if \<not> origin_at_center p
                   then Vec3 (0 - x_width p / 2) (0 - y_depth p / 2) 0
                   else Vec3 0 0 0) \<rparr>)"

section \<open>Matrix algebra\<close>

lemma multiplyMatrices_assoc:
  "multiplyMatrices (multiplyMatrices a b) c = multiplyMatrices a (multiplyMatrices b c)"
  by (simp add: multiplyMatrices_def algebra_simps)

lemma multiplyMatrices_identity [simp]:
  "multiplyMatrices identity m = m" "multiplyMatrices m identity = m"
  by (cases m; simp add: multiplyMatrices_def identity_def)+

lemma applyMatrix4_multiply:
  "applyMatrix4 (multiplyMatrices a b) v = applyMatrix4 a (applyMatrix4 b v)"
  by (simp add: multiplyMatrices_def applyMatrix4_def algebra_simps)

lemma getInverse_left:
  assumes "determinant m \<noteq> 0"
  shows "multiplyMatrices (getInverse m) m = identity"
proof -
  obtain a b c d e f g h i j k l where m: "m = Mat4 a b c d e f g h i j k l"
    by (cases m)
  define D where "D = determinant m"
  have D: "D \<noteq> 0" using assms by (simp add: D_def)
  have Dv: "D = a * (f * k - g * j) - b * (e * k - g * i) + c * (e * j - f * i)"
    by (simp add: D_def m determinant_def)
  have r: "p / D + q / D + r / D = (p + q + r) / D"
    for p q r by (simp add: add_divide_distrib)
  have one: "x = D \<Longrightarrow> x / D = 1" and zero: "x = 0 \<Longrightarrow> x / D = 0" for x
    using D by simp_all
  have e11: "(f * k - g * j) * a + (c * j - b * k) * e + (b * g - c * f) * i = D"
    and e12: "(f * k - g * j) * b + (c * j - b * k) * f + (b * g - c * f) * j = 0"
    and e13: "(f * k - g * j) * c + (c * j - b * k) * g + (b * g - c * f) * k = 0"
    and e21: "(g * i - e * k) * a + (a * k - c * i) * e + (c * e - a * g) * i = 0"
    and e22: "(g * i - e * k) * b + (a * k - c * i) * f + (c * e - a * g) * j = D"
    and e23: "(g * i - e * k) * c + (a * k - c * i) * g + (c * e - a * g) * k = 0"
    and e31: "(e * j - f * i) * a + (b * i - a * j) * e + (a * f - b * e) * i = 0"
    and e32: "(e * j - f * i) * b + (b * i - a * j) * f + (a * f - b * e) * j = 0"
    and e33: "(e * j - f * i) * c + (b * i - a * j) * g + (a * f - b * e) * k = D"
    by (simp_all add: Dv algebra_simps)
  show ?thesis
    unfolding getInverse_def Let_def D_def[symmetric] multiplyMatrices_def identity_def
    using D
    apply (simp add: m)
    apply (simp only: r one[OF e11] one[OF e22] one[OF e33] zero[OF e12] zero[OF e13]
          zero[OF e21] zero[OF e23] zero[OF e31] zero[OF e32])
    done
qed

lemma localToBed_cancel:
  assumes "determinant bed \<noteq> 0"
  shows "applyMatrix4 (getInverse bed) (applyMatrix4 (multiplyMatrices bed a) v) = applyMatrix4 a v"
proof -
  have "applyMatrix4 (getInverse bed) (applyMatrix4 (multiplyMatrices bed a) v)
      = applyMatrix4 (multiplyMatrices (multiplyMatrices (getInverse bed) bed) a) v"
    by (simp only: applyMatrix4_multiply)
  then show ?thesis by (simp add: getInverse_left[OF assms])
qed



section \<open>The scan for the lowest vertex\<close>

lemma forEach_vertex_Some:
  "\<exists>lp. forEach_vertex bed obj vs i (Some a) = Some lp
      \<and> (\<forall>j<length vs. lp_z lp \<le> vz (localToBed bed obj (vs ! j)))
      \<and> lp_z lp \<le> lp_z a
      \<and> (lp = a \<or>
           (lp_z lp < lp_z a \<and> i \<le> lp_index lp \<and> lp_index lp < i + length vs
            \<and> lp_object lp = obj \<and> lp_vertex lp = vs ! (lp_index lp - i)
            \<and> lp_z lp = vz (localToBed bed obj (vs ! (lp_index lp - i)))
            \<and> (\<forall>j<lp_index lp - i. lp_z lp < vz (localToBed bed obj (vs ! j)))))"
proof (induction vs arbitrary: i a)
  case Nil
  show ?case by simp
next
  case (Cons v vs)
  let ?z = "vz (localToBed bed obj v)"
  show ?case
  proof (cases "?z < lp_z a")
    case True
    let ?a' = "\<lparr>lp_object = obj, lp_vertex = v, lp_index = i, lp_z = ?z\<rparr>"
    from Cons.IH[of "Suc i" ?a'] obtain lp where
      lp: "forEach_vertex bed obj vs (Suc i) (Some ?a') = Some lp"
      and all: "\<forall>j<length vs. lp_z lp \<le> vz (localToBed bed obj (vs ! j))"
      and le: "lp_z lp \<le> ?z"
      and alt: "lp = ?a' \<or>
           (lp_z lp < ?z \<and> Suc i \<le> lp_index lp \<and> lp_index lp < Suc i + length vs
            \<and> lp_object lp = obj \<and> lp_vertex lp = vs ! (lp_index lp - Suc i)
            \<and> lp_z lp = vz (localToBed bed obj (vs ! (lp_index lp - Suc i)))
            \<and> (\<forall>j<lp_index lp - Suc i. lp_z lp < vz (localToBed bed obj (vs ! j))))"
      by auto
    have run: "forEach_vertex bed obj (v # vs) i (Some a) = Some lp"
      using True lp by simp
    have all': "\<forall>j<length (v # vs). lp_z lp \<le> vz (localToBed bed obj ((v # vs) ! j))"
      using all le by (auto simp: nth_Cons split: nat.splits)
    from alt show ?thesis
    proof
      assume "lp = ?a'"
      then show ?thesis using run all' True by auto
    next
      assume new: "lp_z lp < ?z \<and> Suc i \<le> lp_index lp \<and> lp_index lp < Suc i + length vs
            \<and> lp_object lp = obj \<and> lp_vertex lp = vs ! (lp_index lp - Suc i)
            \<and> lp_z lp = vz (localToBed bed obj (vs ! (lp_index lp - Suc i)))
            \<and> (\<forall>j<lp_index lp - Suc i. lp_z lp < vz (localToBed bed obj (vs ! j)))"
      then obtain k where k: "lp_index lp - i = Suc k" "lp_index lp - Suc i = k"
        by (metis Suc_diff_le diff_Suc_Suc)
      have "\<forall>j<Suc k. lp_z lp < vz (localToBed bed obj ((v # vs) ! j))"
        using new k by (auto simp: nth_Cons split: nat.splits)
      then show ?thesis using run all' True new k by auto
    qed
  next
    case False
    from Cons.IH[of "Suc i" a] obtain lp where
      lp: "forEach_vertex bed obj vs (Suc i) (Some a) = Some lp"
      and all: "\<forall>j<length vs. lp_z lp \<le> vz (localToBed bed obj (vs ! j))"
      and le: "lp_z lp \<le> lp_z a"
      and alt: "lp = a \<or>
           (lp_z lp < lp_z a \<and> Suc i \<le> lp_index lp \<and> lp_index lp < Suc i + length vs
            \<and> lp_object lp = obj \<and> lp_vertex lp = vs ! (lp_index lp - Suc i)
            \<and> lp_z lp = vz (localToBed bed obj (vs ! (lp_index lp - Suc i)))
            \<and> (\<forall>j<lp_index lp - Suc i. lp_z lp < vz (localToBed bed obj (vs ! j))))"
      by auto
    have run: "forEach_vertex bed obj (v # vs) i (Some a) = Some lp"
      using False lp by simp
    have all': "\<forall>j<length (v # vs). lp_z lp \<le> vz (localToBed bed obj ((v # vs) ! j))"
      using all le False by (auto simp: nth_Cons split: nat.splits)
    from alt show ?thesis
    proof
      assume "lp = a"
      then show ?thesis using run all' by auto
    next
      assume new: "lp_z lp < lp_z a \<and> Suc i \<le> lp_index lp \<and> lp_index lp < Suc i + length vs
            \<and> lp_object lp = obj \<and> lp_vertex lp = vs ! (lp_index lp - Suc i)
            \<and> lp_z lp = vz (localToBed bed obj (vs ! (lp_index lp - Suc i)))
            \<and> (\<forall>j<lp_index lp - Suc i. lp_z lp < vz (localToBed bed obj (vs ! j)))"
      then obtain k where k: "lp_index lp - i = Suc k" "lp_index lp - Suc i = k"
        by (metis Suc_diff_le diff_Suc_Suc)
      have "\<forall>j<Suc k. lp_z lp < vz (localToBed bed obj ((v # vs) ! j))"
        using new k False by (auto simp: nth_Cons split: nat.splits)
      then show ?thesis using run all' new k by auto
    qed
  qed
qed

lemma forEach_vertex_None:
  assumes "vs \<noteq> []"
  shows "\<exists>lp. forEach_vertex bed obj vs i None = Some lp
      \<and> (\<forall>j<length vs. lp_z lp \<le> vz (localToBed bed obj (vs ! j)))
      \<and> i \<le> lp_index lp \<and> lp_index lp < i + length vs
      \<and> lp_object lp = obj \<and> lp_vertex lp = vs ! (lp_index lp - i)
      \<and> lp_z lp = vz (localToBed bed obj (vs ! (lp_index lp - i)))
      \<and> (\<forall>j<lp_index lp - i. lp_z lp < vz (localToBed bed obj (vs ! j)))"
proof -
  obtain v ws where vs: "vs = v # ws" using assms by (cases vs) auto
  let ?z = "vz (localToBed bed obj v)"
  let ?a = "\<lparr>lp_object = obj, lp_vertex = v, lp_index = i, lp_z = ?z\<rparr>"
  from forEach_vertex_Some[of bed obj ws "Suc i" ?a] obtain lp where
      lp: "forEach_vertex bed obj ws (Suc i) (Some ?a) = Some lp"
      and all: "\<forall>j<length ws. lp_z lp \<le> vz (localToBed bed obj (ws ! j))"
      and le: "lp_z lp \<le> ?z"
      and alt: "lp = ?a \<or>
           (lp_z lp < ?z \<and> Suc i \<le> lp_index lp \<and> lp_index lp < Suc i + length ws
            \<and> lp_object lp = obj \<and> lp_vertex lp = ws ! (lp_index lp - Suc i)
            \<and> lp_z lp = vz (localToBed bed obj (ws ! (lp_index lp - Suc i)))
            \<and> (\<forall>j<lp_index lp - Suc i. lp_z lp < vz (localToBed bed obj (ws ! j))))"
    by auto
  have run: "forEach_vertex bed obj vs i None = Some lp"
    using lp by (simp add: vs)
  have all': "\<forall>j<length vs. lp_z lp \<le> vz (localToBed bed obj (vs ! j))"
    using all le by (auto simp: vs nth_Cons split: nat.splits)
  from alt show ?thesis
  proof
    assume "lp = ?a"
    then show ?thesis using run all' by (auto simp: vs)
  next
    assume new: "lp_z lp < ?z \<and> Suc i \<le> lp_index lp \<and> lp_index lp < Suc i + length ws
            \<and> lp_object lp = obj \<and> lp_vertex lp = ws ! (lp_index lp - Suc i)
            \<and> lp_z lp = vz (localToBed bed obj (ws ! (lp_index lp - Suc i)))
            \<and> (\<forall>j<lp_index lp - Suc i. lp_z lp < vz (localToBed bed obj (ws ! j)))"
    then obtain k where k: "lp_index lp - i = Suc k" "lp_index lp - Suc i = k"
      by (metis Suc_diff_le diff_Suc_Suc)
    have "\<forall>j<Suc k. lp_z lp < vz (localToBed bed obj (vs ! j))"
      using new k by (auto simp: vs nth_Cons split: nat.splits)
    then show ?thesis using run all' new k by (auto simp: vs)
  qed
qed

lemma forEach_vertex_z:
  "map_option lp_z (forEach_vertex bed obj vs i lp)
     = fold lower_step (map (\<lambda>v. vz (localToBed bed obj v)) vs) (map_option lp_z lp)"
  by (induction vs arbitrary: i lp) (auto simp: lower_step_def Let_def split: option.splits)

lemma fold_traverse_z:
  assumes "\<And>c lp. c \<in> set cs \<Longrightarrow>
             map_option lp_z (traverse_lowest bed c lp)
               = fold lower_step (hull_heights bed c) (map_option lp_z lp)"
  shows "map_option lp_z (fold (traverse_lowest bed) cs lp)
           = fold lower_step (concat (map (hull_heights bed) cs)) (map_option lp_z lp)"
  using assms by (induction cs arbitrary: lp) simp_all

lemma traverse_lowest_z:
  "map_option lp_z (traverse_lowest bed obj lp)
     = fold lower_step (hull_heights bed obj) (map_option lp_z lp)"
proof (induction obj arbitrary: lp)
  case (Object3D p q s w h cs)
  have kids: "map_option lp_z (fold (traverse_lowest bed) cs l)
           = fold lower_step (concat (map (hull_heights bed) cs)) (map_option lp_z l)" for l
    by (rule fold_traverse_z) (rule Object3D.IH)
  show ?case
    by (cases h) (simp_all add: kids findLowestPoint_def forEach_vertex_z)
qed

lemma lower_step_Some: "lower_step z (Some m) = Some (min z m)"
  by (simp add: lower_step_def min_def)

lemma Min_insert_min:
  assumes "finite S"
  shows "Min (insert (min z m) S) = Min (insert m (insert z S))"
proof (cases "S = {}")
  case True
  then show ?thesis by (simp add: min.commute)
next
  case False
  then show ?thesis using assms by (simp add: min.assoc min.left_commute min.commute)
qed

lemma fold_lower_step_Some:
  "fold lower_step zs (Some m) = Some (Min (insert m (set zs)))"
proof (induction zs arbitrary: m)
  case Nil
  show ?case by simp
next
  case (Cons z zs)
  show ?case
    by (simp only: fold_simps lower_step_Some Cons.IH list.set Min_insert_min[OF finite_set])
qed

lemma fold_lower_step_None:
  "fold lower_step zs None = (if zs = [] then None else Some (Min (set zs)))"
  by (cases zs) (simp_all add: lower_step_def fold_lower_step_Some)


section \<open>Heights under a change of pose\<close>

lemma hull_heights_update:
  assumes "determinant bed \<noteq> 0"
  shows "hull_heights bed (updateMatrixWorld (multiplyMatrices bed A) obj) = local_heights A obj"
proof (induction obj arbitrary: A)
  case (Object3D p q s w h cs)
  have kids: "map (hull_heights bed)
               (map (updateMatrixWorld (multiplyMatrices bed (multiplyMatrices A (compose p q s)))) cs)
            = map (local_heights (multiplyMatrices A (compose p q s))) cs"
    using Object3D.IH by simp
  show ?case
    by (cases h)
       (simp_all add: Let_def multiplyMatrices_assoc localToBed_def worldToLocal_def
          localToWorld_def localToBed_cancel[OF assms] kids del: map_map)
qed

lemma lowerZ_multiply: "multiplyMatrices (lowerZ d a) b = lowerZ d (multiplyMatrices a b)"
  by (simp add: lowerZ_def multiplyMatrices_def)

lemma lowerZ_apply: "vz (applyMatrix4 (lowerZ d a) v) = vz (applyMatrix4 a v) - d"
  by (simp add: lowerZ_def applyMatrix4_def)

lemma local_heights_lowerZ:
  "local_heights (lowerZ d A) obj = map (\<lambda>h. h - d) (local_heights A obj)"
proof (induction obj arbitrary: A)
  case (Object3D p q s w h cs)
  have kids: "concat (map (local_heights (lowerZ d (multiplyMatrices A (compose p q s)))) cs)
            = map (\<lambda>h. h - d) (concat (map (local_heights (multiplyMatrices A (compose p q s))) cs))"
    using Object3D.IH by (simp add: map_concat comp_def cong: map_cong)
  show ?case
    using kids by (cases h) (simp_all add: lowerZ_multiply lowerZ_apply)
qed

lemma compose_lowerZ:
  "compose (Vec3 (vx p) (vy p) (vz p - d)) q s = lowerZ d (compose p q s)"
  by (simp add: compose_def lowerZ_def Let_def)

lemma local_heights_updateMatrixWorld:
  "local_heights A (updateMatrixWorld P obj) = local_heights A obj"
proof (induction obj arbitrary: A P)
  case (Object3D p q s w h cs)
  show ?case
    using Object3D.IH by (cases h) (simp_all add: Let_def comp_def cong: map_cong)
qed

lemma length_local_heights: "length (local_heights A obj) = length (hull_points obj)"
proof (induction obj arbitrary: A)
  case (Object3D p q s w h cs)
  show ?case
    using Object3D.IH by (cases h) (simp_all add: length_concat comp_def cong: map_cong)
qed

lemma hull_heights_bed:
  assumes "determinant bed \<noteq> 0"
  shows "hull_heights bed (updateMatrixWorld bed obj) = local_heights identity obj"
  using hull_heights_update[OF assms, of identity obj] by simp

lemma local_heights_drop:
  "local_heights identity (Object3D (Vec3 (vx p) (vy p) (vz p - d)) q s w h cs)
     = map (\<lambda>h. h - d) (local_heights identity (Object3D p q s w' h cs))"
proof -
  have kids: "local_heights (lowerZ d A) = (\<lambda>c. map (\<lambda>h. h - d) (local_heights A c))" for A
    by (rule ext) (rule local_heights_lowerZ)
  show ?thesis
    by (cases h) (simp_all add: compose_lowerZ lowerZ_apply kids map_concat comp_def)
qed

lemma local_heights_top_update:
  "local_heights A (Object3D p q s w h (map (updateMatrixWorld P) cs))
     = local_heights A (Object3D p q s w' h cs)"
  by (cases h) (simp_all add: comp_def local_heights_updateMatrixWorld)

lemma Min_shift:
  assumes "zs \<noteq> []"
  shows "Min (set (map (\<lambda>h. h - d) zs)) = Min (set zs) - (d::real)"
proof -
  have "Min ((\<lambda>h. h - d) ` set zs) = Min (set zs) - d"
    by (rule mono_Min_commute[symmetric]) (auto simp: mono_def assms)
  then show ?thesis by simp
qed

lemma updateMatrixWorld_sel [simp]:
  "position (updateMatrixWorld P obj) = position obj"
  "quaternion (updateMatrixWorld P obj) = quaternion obj"
  "scale (updateMatrixWorld P obj) = scale obj"
  "obj_hull (updateMatrixWorld P obj) = obj_hull obj"
  by (cases obj; simp add: Let_def)+

lemma dropObjectToFloor_result:
  assumes det: "determinant bed \<noteq> 0"
    and ne: "hull_points obj \<noteq> []"
  shows "dropObjectToFloor bed obj =
           Inr (Object3D
                  (Vec3 (vx (position obj)) (vy (position obj))
                        (vz (position obj) - Min (set (local_heights identity obj))))
                  (quaternion obj) (scale obj)
                  (matrixWorld (updateMatrixWorld bed obj)) (obj_hull obj)
                  (children (updateMatrixWorld bed obj)))"
proof -
  have ne': "local_heights identity obj \<noteq> []"
    using ne length_local_heights[of identity obj] by (metis length_0_conv)
  have "map_option lp_z (traverse_lowest bed (updateMatrixWorld bed obj) None)
          = Some (Min (set (local_heights identity obj)))"
    using ne' by (simp add: traverse_lowest_z hull_heights_bed[OF det] fold_lower_step_None)
  then obtain lp where lp: "traverse_lowest bed (updateMatrixWorld bed obj) None = Some lp"
      and z: "lp_z lp = Min (set (local_heights identity obj))"
    by auto
  show ?thesis
    unfolding dropObjectToFloor_def Let_def lp
    by (simp add: z)
qed

lemma local_heights_nonempty:
  "hull_points obj \<noteq> [] \<Longrightarrow> local_heights A obj \<noteq> []"
  using length_local_heights[of A obj] by (metis length_0_conv)

lemma dropObjectToFloor_heights:
  assumes det: "determinant bed \<noteq> 0"
    and ne: "hull_points obj \<noteq> []"
  shows "\<exists>obj1. dropObjectToFloor bed obj = Inr obj1
           \<and> position obj1 = Vec3 (vx (position obj)) (vy (position obj))
                                (vz (position obj) - Min (set (local_heights identity obj)))
           \<and> quaternion obj1 = quaternion obj
           \<and> scale obj1 = scale obj
           \<and> local_heights identity obj1
               = map (\<lambda>h. h - Min (set (local_heights identity obj))) (local_heights identity obj)"
proof -
  obtain p q s w h cs where obj: "obj = Object3D p q s w h cs" by (cases obj)
  define m where "m = Min (set (local_heights identity obj))"
  define w1 where "w1 = matrixWorld (updateMatrixWorld bed obj)"
  define P where "P = multiplyMatrices bed (compose p q s)"
  have kids: "children (updateMatrixWorld bed obj) = map (updateMatrixWorld P) cs"
    by (simp add: obj P_def Let_def)
  have res: "dropObjectToFloor bed obj
               = Inr (Object3D (Vec3 (vx p) (vy p) (vz p - m)) q s w1 h (map (updateMatrixWorld P) cs))"
    using dropObjectToFloor_result[OF det ne]
    by (simp only: m_def w1_def kids) (simp add: obj)
  have "local_heights identity (Object3D (Vec3 (vx p) (vy p) (vz p - m)) q s w1 h
            (map (updateMatrixWorld P) cs))
          = map (\<lambda>h. h - m) (local_heights identity (Object3D p q s w h (map (updateMatrixWorld P) cs)))"
    by (rule local_heights_drop)
  also have "\<dots> = map (\<lambda>h. h - m) (local_heights identity obj)"
    by (simp only: local_heights_top_update[where w'=w] obj)
  finally show ?thesis
    using res by (simp add: obj m_def)
qed


section \<open>The candidates of lay flat\<close>

lemma candidate_of_in_range:
  "in_range q face \<Longrightarrow>
     candidate_of q face = Inr \<lparr>angle = face_angle q face, cnormal = normal face\<rparr>"
  by (simp add: candidate_of_def Math_acos_def in_range_def face_angle_def)

text \<open>
  The value 1 + 2^-52 is the double next above 1, printed 1.0000000000000002; at it
  \<^verbatim>\<open>Math.acos\<close> has no angle to give.
\<close>

lemma Math_acos_above_one: "Math_acos (1 + 1 / 2 ^ 52) = Inl (NotANumber ''Math.acos'')"
  by (simp add: Math_acos_def)

lemma forEach_face_Some:
  assumes "\<forall>face\<in>set fs. touches (lp_index p) face \<longrightarrow> in_range q face"
  shows "forEach_face (Some p) q fs acc
     = Inr (acc @ map (\<lambda>face. \<lparr>angle = face_angle q face, cnormal = normal face\<rparr>)
                    (filter (touches (lp_index p)) fs))"
  using assms by (induction fs arbitrary: acc) (simp_all add: candidate_of_in_range)

lemma hd_insort_key:
  "hd (insort_key f x ys) = (if ys = [] \<or> f x \<le> f (hd ys) then x else hd ys)"
  by (cases ys) simp_all

lemma sort_key_Nil_iff: "sort_key f xs = [] \<longleftrightarrow> xs = []"
  by (metis length_0_conv length_sort)

lemma hd_sort_key_first_min:
  fixes f :: "'a \<Rightarrow> real"
  assumes "xs \<noteq> []"
  shows "\<exists>k<length xs. hd (sort_key f xs) = xs ! k
           \<and> (\<forall>j<length xs. f (xs ! k) \<le> f (xs ! j))
           \<and> (\<forall>j<k. f (xs ! k) < f (xs ! j))"
  using assms
proof (induction xs)
  case Nil
  then show ?case by simp
next
  case (Cons x xs)
  show ?case
  proof (cases "xs = []")
    case True
    then show ?thesis by simp
  next
    case False
    from Cons.IH[OF False] obtain k where
      k: "k < length xs" "hd (sort_key f xs) = xs ! k"
      and lo: "\<forall>j<length xs. f (xs ! k) \<le> f (xs ! j)"
      and first: "\<forall>j<k. f (xs ! k) < f (xs ! j)"
      by blast
    have ne: "sort_key f xs \<noteq> []" using False by (simp add: sort_key_Nil_iff)
    show ?thesis
    proof (cases "f x \<le> f (xs ! k)")
      case True
      have "hd (sort_key f (x # xs)) = x"
        using True k ne by (simp add: hd_insort_key)
      moreover have "\<forall>j<length (x # xs). f x \<le> f ((x # xs) ! j)"
        using True lo by (auto simp: nth_Cons split: nat.splits)
      ultimately show ?thesis by (intro exI[of _ 0]) simp
    next
      case False
      have "hd (sort_key f (x # xs)) = xs ! k"
        using False k ne by (simp add: hd_insort_key)
      moreover have "\<forall>j<length (x # xs). f (xs ! k) \<le> f ((x # xs) ! j)"
        using False lo by (auto simp: nth_Cons split: nat.splits)
      moreover have "\<forall>j<Suc k. f (xs ! k) < f ((x # xs) ! j)"
        using False first by (auto simp: nth_Cons split: nat.splits)
      ultimately show ?thesis using k by (intro exI[of _ "Suc k"]) simp
    qed
  qed
qed

lemma layflat_candidates_eq:
  assumes "obj_hull obj = Some g"
    and "findLowestPoint bedRelative obj g None = Some pivot"
    and "decompose (matrixWorld obj) = Inr (t, q, s)"
    and "\<forall>face\<in>set (faces g). touches (lp_index pivot) face \<longrightarrow> in_range q face"
  shows "layflat_candidates bedRelative obj
           = Inr (q, sort_key angle
                       (map (\<lambda>face. \<lparr>angle = face_angle q face, cnormal = normal face\<rparr>)
                          (filter (touches (lp_index pivot)) (faces g))))"
  using assms(1-3) forEach_face_Some[OF assms(4), of "[]"]
  by (simp add: layflat_candidates_def)

section \<open>Quaternion algebra and the shortest arc\<close>

lemma arc_rotates:
  "applyQuaternion a (Quat (vx (cross a b)) (vy (cross a b)) (vz (cross a b)) (dot a b + 1))
   = Vec3 ((1 - dot a a * dot b b) * vx a + 2 * (1 + dot a b) * dot a a * vx b)
          ((1 - dot a a * dot b b) * vy a + 2 * (1 + dot a b) * dot a a * vy b)
          ((1 - dot a a * dot b b) * vz a + 2 * (1 + dot a b) * dot a a * vz b)"
  by (cases a; cases b) (simp add: applyQuaternion_def cross_def dot_def Let_def algebra_simps)

lemma rot_rot_inv:
  "applyQuaternion (applyQuaternion v (inverse_quat q)) q
    = Vec3 (qnorm2 q * qnorm2 q * vx v) (qnorm2 q * qnorm2 q * vy v) (qnorm2 q * qnorm2 q * vz v)"
  by (cases v; cases q) (simp add: applyQuaternion_def inverse_quat_def qnorm2_def Let_def algebra_simps)

lemma rot_cross:
  "cross (applyQuaternion a q) (applyQuaternion b q)
    = Vec3 (qnorm2 q * vx (applyQuaternion (cross a b) q))
           (qnorm2 q * vy (applyQuaternion (cross a b) q))
           (qnorm2 q * vz (applyQuaternion (cross a b) q))"
  by (cases a; cases b; cases q) (simp add: applyQuaternion_def cross_def qnorm2_def Let_def algebra_simps)

lemma rot_dot:
  "dot (applyQuaternion a q) (applyQuaternion b q) = qnorm2 q * qnorm2 q * dot a b"
  by (cases a; cases b; cases q) (simp add: applyQuaternion_def dot_def qnorm2_def Let_def algebra_simps)

lemma conj_mult:
  "multiplyQuaternions (Quat (vx (applyQuaternion u q)) (vy (applyQuaternion u q)) (vz (applyQuaternion u q)) (r * qnorm2 q)) q
    = Quat (qnorm2 q * qx (multiplyQuaternions q (Quat (vx u) (vy u) (vz u) r)))
           (qnorm2 q * qy (multiplyQuaternions q (Quat (vx u) (vy u) (vz u) r)))
           (qnorm2 q * qz (multiplyQuaternions q (Quat (vx u) (vy u) (vz u) r)))
           (qnorm2 q * qw (multiplyQuaternions q (Quat (vx u) (vy u) (vz u) r)))"
  by (cases u; cases q) (simp add: applyQuaternion_def multiplyQuaternions_def qnorm2_def Let_def algebra_simps)

lemma rot_mult:
  "applyQuaternion v (multiplyQuaternions a b) = applyQuaternion (applyQuaternion v b) a"
  by (cases v; cases a; cases b) (simp add: applyQuaternion_def multiplyQuaternions_def Let_def algebra_simps)

lemma qlength_qnorm2: "qlength q = sqrt (qnorm2 q)"
  by (simp add: qlength_def qnorm2_def)

lemma qlength_one: "qlength q = 1 \<longleftrightarrow> qnorm2 q = 1"
  by (simp add: qlength_qnorm2)

lemma vlength_one: "vlength v = 1 \<longleftrightarrow> dot v v = 1"
  by (simp add: vlength_def dot_def)

lemma normalize_quat_qscale:
  "qnorm2 q \<noteq> 0 \<Longrightarrow> normalize_quat q = qscale (1 / sqrt (qnorm2 q)) q"
  by (simp add: normalize_quat_def qlength_qnorm2 qscale_def Let_def)

lemma applyQuaternion_qscale:
  "applyQuaternion v (qscale k q)
     = Vec3 (k * k * vx (applyQuaternion v q)) (k * k * vy (applyQuaternion v q))
            (k * k * vz (applyQuaternion v q))"
  by (cases v; cases q) (simp add: applyQuaternion_def qscale_def Let_def algebra_simps)

lemma qnorm2_qscale: "qnorm2 (qscale k q) = k * k * qnorm2 q"
  by (simp add: qnorm2_def qscale_def algebra_simps)

lemma multiply_qscale_left:
  "multiplyQuaternions (qscale k a) b = qscale k (multiplyQuaternions a b)"
  by (simp add: multiplyQuaternions_def qscale_def algebra_simps)

lemma multiply_qscale_right:
  "multiplyQuaternions a (qscale k b) = qscale k (multiplyQuaternions a b)"
  by (simp add: multiplyQuaternions_def qscale_def algebra_simps)

lemma qnorm2_arc0:
  "qnorm2 (arc0 a b) = dot a a * dot b b - dot a b * dot a b + (dot a b + 1) * (dot a b + 1)"
  by (cases a; cases b) (simp add: qnorm2_def arc0_def dot_def algebra_simps)

lemma qnorm2_arc0_unit:
  assumes "dot a a = 1" "dot b b = 1"
  shows "qnorm2 (arc0 a b) = 2 * (dot a b + 1)"
  by (simp add: qnorm2_arc0 assms algebra_simps)

lemma arc0_rotates:
  assumes "dot a a = 1" "dot b b = 1"
  shows "applyQuaternion a (arc0 a b)
     = Vec3 (2 * (dot a b + 1) * vx b) (2 * (dot a b + 1) * vy b) (2 * (dot a b + 1) * vz b)"
  using arc_rotates[of a b] by (simp add: arc0_def cross_def assms)

lemma EPS_pos: "0 < EPS" by (simp add: EPS_def)

lemma setFromUnitVectors_arc0:
  assumes "dot a a = 1" "dot b b = 1" "EPS \<le> dot a b + 1"
  shows "setFromUnitVectors a b = qscale (1 / sqrt (2 * (dot a b + 1))) (arc0 a b)"
proof -
  have pos: "0 < dot a b + 1" using assms(3) EPS_pos by linarith
  have "qnorm2 (arc0 a b) \<noteq> 0"
    using pos by (simp add: qnorm2_arc0_unit[OF assms(1,2)])
  then have "normalize_quat (arc0 a b) = qscale (1 / sqrt (2 * (dot a b + 1))) (arc0 a b)"
    by (simp add: normalize_quat_qscale qnorm2_arc0_unit[OF assms(1,2)])
  moreover have "setFromUnitVectors a b = normalize_quat (arc0 a b)"
    using assms(3) by (simp add: setFromUnitVectors_def arc0_def Let_def)
  ultimately show ?thesis by simp
qed

lemma setFromUnitVectors_rotates:
  assumes "dot a a = 1" "dot b b = 1" "EPS \<le> dot a b + 1"
  shows "applyQuaternion a (setFromUnitVectors a b) = b"
    and "qnorm2 (setFromUnitVectors a b) = 1"
proof -
  let ?r = "dot a b + 1"
  have pos: "0 < ?r" using assms(3) EPS_pos by linarith
  have k: "(1 / sqrt (2 * ?r)) * (1 / sqrt (2 * ?r)) = 1 / (2 * ?r)"
    using pos by (simp add: real_sqrt_mult_self)
  have k': "1 / sqrt (2 * ?r) * (1 / sqrt (2 * ?r)) * (2 * ?r * c) = c" for c
  proof -
    have "1 / (2 * ?r) * (2 * ?r * c) = c" using pos by simp
    then show ?thesis by (simp only: k)
  qed
  show "applyQuaternion a (setFromUnitVectors a b) = b"
    by (simp only: setFromUnitVectors_arc0[OF assms] applyQuaternion_qscale
          arc0_rotates[OF assms(1,2)] vec3.sel k' vec3.collapse)
  have "qnorm2 (setFromUnitVectors a b) = 1 / (2 * ?r) * (2 * ?r)"
    by (simp only: setFromUnitVectors_arc0[OF assms] qnorm2_qscale
          qnorm2_arc0_unit[OF assms(1,2)] k)
  then show "qnorm2 (setFromUnitVectors a b) = 1" using pos by simp
qed

lemma multiplyQuaternions_assoc:
  "multiplyQuaternions (multiplyQuaternions a b) c = multiplyQuaternions a (multiplyQuaternions b c)"
  by (simp add: multiplyQuaternions_def algebra_simps)

lemma qnorm2_inverse [simp]: "qnorm2 (inverse_quat q) = qnorm2 q"
  by (simp add: qnorm2_def inverse_quat_def)

lemma inverse_quat_qscale: "inverse_quat (qscale k q) = qscale k (inverse_quat q)"
  by (simp add: inverse_quat_def qscale_def)

lemma applyQuaternion_neg:
  "applyQuaternion v (qscale (- 1) q) = applyQuaternion v q"
  by (simp add: applyQuaternion_qscale)

lemma dot_downVector [simp]: "dot downVector downVector = 1"
  by (simp add: dot_def downVector_def)

lemma arc0_rotate_frame:
  assumes "qnorm2 w = 1"
  shows "multiplyQuaternions (arc0 (applyQuaternion n w) (applyQuaternion d w)) w
           = multiplyQuaternions w (arc0 n d)"
proof -
  have c0: "cross (applyQuaternion n w) (applyQuaternion d w) = applyQuaternion (cross n d) w"
    using rot_cross[of n w d] by (simp add: assms)
  have c: "vy (applyQuaternion n w) * vz (applyQuaternion d w)
             - vz (applyQuaternion n w) * vy (applyQuaternion d w)
           = vx (applyQuaternion (cross n d) w)"
    "vz (applyQuaternion n w) * vx (applyQuaternion d w)
             - vx (applyQuaternion n w) * vz (applyQuaternion d w)
           = vy (applyQuaternion (cross n d) w)"
    "vx (applyQuaternion n w) * vy (applyQuaternion d w)
             - vy (applyQuaternion n w) * vx (applyQuaternion d w)
           = vz (applyQuaternion (cross n d) w)"
    using arg_cong[OF c0, of vx] arg_cong[OF c0, of vy] arg_cong[OF c0, of vz]
    by (simp_all add: cross_def)
  have r: "dot (applyQuaternion n w) (applyQuaternion d w) = dot n d"
    by (simp add: rot_dot assms)
  have "arc0 (applyQuaternion n w) (applyQuaternion d w)
          = Quat (vx (applyQuaternion (cross n d) w)) (vy (applyQuaternion (cross n d) w))
                 (vz (applyQuaternion (cross n d) w)) ((dot n d + 1) * qnorm2 w)"
    by (simp add: arc0_def c r assms)
  moreover have "arc0 n d = Quat (vx (cross n d)) (vy (cross n d)) (vz (cross n d)) (dot n d + 1)"
    by (simp add: arc0_def cross_def)
  ultimately show ?thesis
    using conj_mult[of "cross n d" w "dot n d + 1"] by (simp add: assms)
qed

lemma layflat_rotation_refines:
  assumes w: "qnorm2 w = 1"
    and n: "dot n n = 1"
    and nd: "EPS \<le> dot n (applyQuaternion downVector (inverse_quat w)) + 1"
  shows "multiplyQuaternions w (setFromUnitVectors n (applyQuaternion downVector (inverse_quat w)))
           = spec_layFlat_orientation w n"
    and "applyQuaternion n
           (multiplyQuaternions w (setFromUnitVectors n (applyQuaternion downVector (inverse_quat w))))
           = downVector"
proof -
  let ?d = "applyQuaternion downVector (inverse_quat w)"
  have undo: "applyQuaternion ?d w = downVector"
    using rot_rot_inv[of downVector w] by (simp add: w)
  have d1: "dot ?d ?d = 1"
    by (simp add: rot_dot w)
  have nw1: "dot (applyQuaternion n w) (applyQuaternion n w) = 1"
    by (simp add: rot_dot w n)
  have r: "dot (applyQuaternion n w) downVector = dot n ?d"
    using rot_dot[of n w ?d] by (simp add: undo w)
  have nd': "EPS \<le> dot (applyQuaternion n w) downVector + 1"
    using nd r by simp
  have "multiplyQuaternions (setFromUnitVectors (applyQuaternion n w) downVector) w
      = qscale (1 / sqrt (2 * (dot n ?d + 1)))
          (multiplyQuaternions (arc0 (applyQuaternion n w) (applyQuaternion ?d w)) w)"
    using setFromUnitVectors_arc0[OF nw1 dot_downVector nd']
    by (simp add: r undo multiply_qscale_left)
  also have "\<dots> = qscale (1 / sqrt (2 * (dot n ?d + 1))) (multiplyQuaternions w (arc0 n ?d))"
    by (simp only: arc0_rotate_frame[OF w])
  also have "\<dots> = multiplyQuaternions w (setFromUnitVectors n ?d)"
    by (simp only: setFromUnitVectors_arc0[OF n d1 nd] multiply_qscale_right)
  finally show "multiplyQuaternions w (setFromUnitVectors n ?d) = spec_layFlat_orientation w n"
    by (simp add: spec_layFlat_orientation_def)
  show "applyQuaternion n (multiplyQuaternions w (setFromUnitVectors n ?d)) = downVector"
    by (simp only: rot_mult setFromUnitVectors_rotates(1)[OF n d1 nd] undo)
qed

lemma compose_unit:
  assumes "qnorm2 q = 1"
  shows "compose t q s =
           Mat4 (n11 (rotm q) * vx s) (n12 (rotm q) * vy s) (n13 (rotm q) * vz s) (vx t)
                (n21 (rotm q) * vx s) (n22 (rotm q) * vy s) (n23 (rotm q) * vz s) (vy t)
                (n31 (rotm q) * vx s) (n32 (rotm q) * vy s) (n33 (rotm q) * vz s) (vz t)"
proof -
  have d: "1 - (qy q * (qy q + qy q) + qz q * (qz q + qz q))
             = qw q * qw q + qx q * qx q - qy q * qy q - qz q * qz q"
    "1 - (qx q * (qx q + qx q) + qz q * (qz q + qz q))
             = qw q * qw q - qx q * qx q + qy q * qy q - qz q * qz q"
    "1 - (qx q * (qx q + qx q) + qy q * (qy q + qy q))
             = qw q * qw q - qx q * qx q - qy q * qy q + qz q * qz q"
    using assms by (simp_all add: qnorm2_def algebra_simps)
  have e: "qx q * (qy q + qy q) - qw q * (qz q + qz q) = 2 * (qx q * qy q - qw q * qz q)"
    "qx q * (qz q + qz q) + qw q * (qy q + qy q) = 2 * (qx q * qz q + qw q * qy q)"
    "qx q * (qy q + qy q) + qw q * (qz q + qz q) = 2 * (qx q * qy q + qw q * qz q)"
    "qy q * (qz q + qz q) - qw q * (qx q + qx q) = 2 * (qy q * qz q - qw q * qx q)"
    "qx q * (qz q + qz q) - qw q * (qy q + qy q) = 2 * (qx q * qz q - qw q * qy q)"
    "qy q * (qz q + qz q) + qw q * (qx q + qx q) = 2 * (qy q * qz q + qw q * qx q)"
    by (simp_all add: algebra_simps)
  show ?thesis
    unfolding compose_def Let_def rotm_def mat4.sel
    by (simp only: d e)
qed

lemma rotm_mult:
  "multiplyMatrices (rotm a) (rotm b) = rotm (multiplyQuaternions a b)"
  by (cases a; cases b) (simp add: multiplyMatrices_def rotm_def multiplyQuaternions_def algebra_simps)

lemma qnorm2_mult: "qnorm2 (multiplyQuaternions a b) = qnorm2 a * qnorm2 b"
  by (cases a; cases b) (simp add: qnorm2_def multiplyQuaternions_def algebra_simps)

lemma rotm_columns:
  "n11 (rotm q) * n11 (rotm q) + n21 (rotm q) * n21 (rotm q) + n31 (rotm q) * n31 (rotm q)
     = qnorm2 q * qnorm2 q"
  "n12 (rotm q) * n12 (rotm q) + n22 (rotm q) * n22 (rotm q) + n32 (rotm q) * n32 (rotm q)
     = qnorm2 q * qnorm2 q"
  "n13 (rotm q) * n13 (rotm q) + n23 (rotm q) * n23 (rotm q) + n33 (rotm q) * n33 (rotm q)
     = qnorm2 q * qnorm2 q"
  by (cases q; simp add: rotm_def qnorm2_def algebra_simps)+

lemma rotm_det: "determinant (rotm q) = qnorm2 q * qnorm2 q * qnorm2 q"
  by (cases q) (simp add: determinant_def rotm_def qnorm2_def algebra_simps)

lemma sfr_case1:
  assumes "n11 m + n22 m + n33 m > 0"
  shows "setFromRotationMatrix m =
    Quat ((n32 m - n23 m) * (1 / (2 * sqrt (n11 m + n22 m + n33 m + 1))))
         ((n13 m - n31 m) * (1 / (2 * sqrt (n11 m + n22 m + n33 m + 1))))
         ((n21 m - n12 m) * (1 / (2 * sqrt (n11 m + n22 m + n33 m + 1))))
         (sqrt (n11 m + n22 m + n33 m + 1) / 2)"
  using assms by (simp add: setFromRotationMatrix_def Let_def)

lemma sfr_case2:
  assumes "\<not> n11 m + n22 m + n33 m > 0" "n11 m > n22 m" "n11 m > n33 m"
  shows "setFromRotationMatrix m =
    Quat (sqrt (1 + n11 m - n22 m - n33 m) / 2)
         ((n12 m + n21 m) / (2 * sqrt (1 + n11 m - n22 m - n33 m)))
         ((n13 m + n31 m) / (2 * sqrt (1 + n11 m - n22 m - n33 m)))
         ((n32 m - n23 m) / (2 * sqrt (1 + n11 m - n22 m - n33 m)))"
  using assms by (simp add: setFromRotationMatrix_def Let_def)

lemma sfr_case3:
  assumes "\<not> n11 m + n22 m + n33 m > 0" "\<not> (n11 m > n22 m \<and> n11 m > n33 m)" "n22 m > n33 m"
  shows "setFromRotationMatrix m =
    Quat ((n12 m + n21 m) / (2 * sqrt (1 + n22 m - n11 m - n33 m)))
         (sqrt (1 + n22 m - n11 m - n33 m) / 2)
         ((n23 m + n32 m) / (2 * sqrt (1 + n22 m - n11 m - n33 m)))
         ((n13 m - n31 m) / (2 * sqrt (1 + n22 m - n11 m - n33 m)))"
  using assms by (auto simp add: setFromRotationMatrix_def Let_def)

lemma sfr_case4:
  assumes "\<not> n11 m + n22 m + n33 m > 0" "\<not> (n11 m > n22 m \<and> n11 m > n33 m)" "\<not> n22 m > n33 m"
  shows "setFromRotationMatrix m =
    Quat ((n13 m + n31 m) / (2 * sqrt (1 + n33 m - n11 m - n22 m)))
         ((n23 m + n32 m) / (2 * sqrt (1 + n33 m - n11 m - n22 m)))
         (sqrt (1 + n33 m - n11 m - n22 m) / 2)
         ((n21 m - n12 m) / (2 * sqrt (1 + n33 m - n11 m - n22 m)))"
  using assms by (auto simp add: setFromRotationMatrix_def Let_def)

lemma sq_le_zero: "a * a \<le> 0 \<Longrightarrow> a = (0::real)"
  by (auto simp: mult_le_0_iff)

lemma sqrt_four_sq: "sqrt (4 * (a * a)) = 2 * \<bar>a\<bar>"
  by (simp add: real_sqrt_mult)

lemma setFromRotationMatrix_rotm:
  assumes "qnorm2 q = 1"
  shows "setFromRotationMatrix (rotm q) = q \<or> setFromRotationMatrix (rotm q) = qscale (- 1) q"
proof -
  obtain x y z w where q: "q = Quat x y z w" by (cases q)
  have u: "x * x + y * y + z * z + w * w = 1"
    using assms by (simp add: q qnorm2_def)
  define R where "R = rotm q"
  have diffs: "n32 R - n23 R = 4 * w * x" "n13 R - n31 R = 4 * w * y" "n21 R - n12 R = 4 * w * z"
    "n12 R + n21 R = 4 * x * y" "n13 R + n31 R = 4 * x * z" "n23 R + n32 R = 4 * y * z"
    by (simp_all add: R_def rotm_def q)
  have tr: "n11 R + n22 R + n33 R + 1 = 4 * (w * w)"
    and dx: "1 + n11 R - n22 R - n33 R = 4 * (x * x)"
    and dy: "1 + n22 R - n11 R - n33 R = 4 * (y * y)"
    and dz: "1 + n33 R - n11 R - n22 R = 4 * (z * z)"
    using u by (simp_all add: R_def rotm_def q)
  have c12: "n11 R > n22 R \<longleftrightarrow> x * x > y * y"
    and c13: "n11 R > n33 R \<longleftrightarrow> x * x > z * z"
    and c23: "n22 R > n33 R \<longleftrightarrow> y * y > z * z"
    by (auto simp: R_def rotm_def q)
  have sq: "0 \<le> x * x" "0 \<le> y * y" "0 \<le> z * z" "0 \<le> w * w" by simp_all
  consider (one) "n11 R + n22 R + n33 R > 0"
    | (two) "\<not> n11 R + n22 R + n33 R > 0" "n11 R > n22 R" "n11 R > n33 R"
    | (three) "\<not> n11 R + n22 R + n33 R > 0" "\<not> (n11 R > n22 R \<and> n11 R > n33 R)" "n22 R > n33 R"
    | (four) "\<not> n11 R + n22 R + n33 R > 0" "\<not> (n11 R > n22 R \<and> n11 R > n33 R)" "\<not> n22 R > n33 R"
    by blast
  then have "setFromRotationMatrix R = q \<or> setFromRotationMatrix R = qscale (- 1) q"
  proof cases
    case one
    have w0: "w \<noteq> 0"
    proof
      assume "w = 0"
      then have "n11 R + n22 R + n33 R + 1 = 0" using tr by simp
      then show False using one by simp
    qed
    have "w > 0 \<or> w < 0" using w0 by auto
    then show ?thesis
    proof
      assume "w > 0"
      then have "setFromRotationMatrix R = q"
        by (simp add: sfr_case1[OF one] diffs tr sqrt_four_sq q)
      then show ?thesis ..
    next
      assume "w < 0"
      then have "setFromRotationMatrix R = qscale (- 1) q"
        by (simp add: sfr_case1[OF one] diffs tr sqrt_four_sq q qscale_def)
      then show ?thesis ..
    qed
  next
    case two
    have x0: "x \<noteq> 0"
    proof
      assume "x = 0"
      then show False using two(2) c12 sq by simp
    qed
    have "x > 0 \<or> x < 0" using x0 by auto
    then show ?thesis
    proof
      assume "x > 0"
      then have "setFromRotationMatrix R = q"
        by (simp add: sfr_case2[OF two] diffs dx sqrt_four_sq q)
      then show ?thesis ..
    next
      assume "x < 0"
      then have "setFromRotationMatrix R = qscale (- 1) q"
        by (simp add: sfr_case2[OF two] diffs dx sqrt_four_sq q qscale_def)
      then show ?thesis ..
    qed
  next
    case three
    have y0: "y \<noteq> 0"
    proof
      assume "y = 0"
      then show False using three(3) c23 sq by simp
    qed
    have "y > 0 \<or> y < 0" using y0 by auto
    then show ?thesis
    proof
      assume "y > 0"
      then have "setFromRotationMatrix R = q"
        by (simp add: sfr_case3[OF three] diffs dy sqrt_four_sq q)
      then show ?thesis ..
    next
      assume "y < 0"
      then have "setFromRotationMatrix R = qscale (- 1) q"
        by (simp add: sfr_case3[OF three] diffs dy sqrt_four_sq q qscale_def)
      then show ?thesis ..
    qed
  next
    case four
    have z0: "z \<noteq> 0"
    proof
      assume z: "z = 0"
      have "y * y \<le> z * z" using four(3) c23 by simp
      then have y: "y = 0" using z sq_le_zero[of y] by simp
      have "x * x \<le> y * y \<or> x * x \<le> z * z" using four(2) c12 c13 by auto
      then have x: "x = 0" using y z sq_le_zero[of x] by auto
      have "w * w = 1" using u x y z by simp
      then have "n11 R + n22 R + n33 R + 1 = 4" using tr by simp
      then show False using four(1) by simp
    qed
    have "z > 0 \<or> z < 0" using z0 by auto
    then show ?thesis
    proof
      assume "z > 0"
      then have "setFromRotationMatrix R = q"
        by (simp add: sfr_case4[OF four] diffs dz sqrt_four_sq q)
      then show ?thesis ..
    next
      assume "z < 0"
      then have "setFromRotationMatrix R = qscale (- 1) q"
        by (simp add: sfr_case4[OF four] diffs dz sqrt_four_sq q qscale_def)
      then show ?thesis ..
    qed
  qed
  then show ?thesis by (simp add: R_def)
qed

lemma setFromRotationMatrix_translation:
  "setFromRotationMatrix (Mat4 a b c t1 e f g t2 i j k prism_face_angles)
     = setFromRotationMatrix (Mat4 a b c 0 e f g 0 i j k 0)"
  by (simp add: setFromRotationMatrix_def)

lemma vlength_scaled:
  assumes "a * a + e * e + i * i = 1" "0 < s"
  shows "vlength (Vec3 (a * s) (e * s) (i * s)) = s"
proof -
  have "(a * s) * (a * s) + (e * s) * (e * s) + (i * s) * (i * s) = (a * a + e * e + i * i) * (s * s)"
    by (simp add: algebra_simps)
  then have "vlength (Vec3 (a * s) (e * s) (i * s)) = sqrt (s * s)"
    by (simp add: vlength_def assms(1))
  then show ?thesis using assms(2) by simp
qed

lemma determinant_scaled:
  "determinant (Mat4 (a * sx) (b * sy) (c * sz) t1 (e * sx) (f * sy) (g * sz) t2
                     (i * sx) (j * sy) (k * sz) prism_face_angles)
     = determinant (Mat4 a b c 0 e f g 0 i j k 0) * (sx * sy * sz)"
  by (simp add: determinant_def algebra_simps)

lemma decompose_scaled_rotation:
  assumes cols: "a * a + e * e + i * i = 1" "b * b + f * f + j * j = 1" "c * c + g * g + k * k = 1"
    and det: "determinant (Mat4 a b c 0 e f g 0 i j k 0) = 1"
    and pos: "0 < sx" "0 < sy" "0 < sz"
  shows "decompose (Mat4 (a * sx) (b * sy) (c * sz) t1 (e * sx) (f * sy) (g * sz) t2
                         (i * sx) (j * sy) (k * sz) prism_face_angles)
           = Inr (Vec3 t1 t2 prism_face_angles, setFromRotationMatrix (Mat4 a b c 0 e f g 0 i j k 0),
                  Vec3 sx sy sz)"
proof -
  let ?M = "Mat4 (a * sx) (b * sy) (c * sz) t1 (e * sx) (f * sy) (g * sz) t2
                 (i * sx) (j * sy) (k * sz) prism_face_angles"
  have l: "vlength (Vec3 (a * sx) (e * sx) (i * sx)) = sx"
    "vlength (Vec3 (b * sy) (f * sy) (j * sy)) = sy"
    "vlength (Vec3 (c * sz) (g * sz) (k * sz)) = sz"
    using vlength_scaled cols pos by simp_all
  have "0 < sx * sy * sz" using pos by simp
  then have d: "\<not> determinant ?M < 0"
    by (simp add: determinant_scaled det)
  have m1: "Mat4 (a * sx * (1 / sx)) (b * sy * (1 / sy)) (c * sz * (1 / sz)) t1
                 (e * sx * (1 / sx)) (f * sy * (1 / sy)) (g * sz * (1 / sz)) t2
                 (i * sx * (1 / sx)) (j * sy * (1 / sy)) (k * sz * (1 / sz)) prism_face_angles
            = Mat4 a b c t1 e f g t2 i j k prism_face_angles"
    using pos by simp
  have sxdef: "(if determinant ?M < 0 then - sx else sx) = sx"
    using d by simp
  have nz: "(sx = 0 \<or> sy = 0 \<or> sz = 0) = False"
    using pos by simp
  show ?thesis
    unfolding decompose_def Let_def mat4.sel l sxdef
    by (simp only: nz if_False m1 setFromRotationMatrix_translation[of a b c t1 e f g t2 i j k prism_face_angles])
qed

lemma rotm_translation [simp]: "n14 (rotm q) = 0" "n24 (rotm q) = 0" "n34 (rotm q) = 0"
  by (simp_all add: rotm_def)

lemma placed_matrix:
  assumes "qnorm2 P = 1" "qnorm2 q = 1"
  shows "\<exists>t1 t2 prism_face_angles.
     multiplyMatrices (compose tb P (Vec3 1 1 1)) (compose p q s)
       = Mat4 (n11 (rotm (multiplyQuaternions P q)) * vx s)
              (n12 (rotm (multiplyQuaternions P q)) * vy s)
              (n13 (rotm (multiplyQuaternions P q)) * vz s) t1
              (n21 (rotm (multiplyQuaternions P q)) * vx s)
              (n22 (rotm (multiplyQuaternions P q)) * vy s)
              (n23 (rotm (multiplyQuaternions P q)) * vz s) t2
              (n31 (rotm (multiplyQuaternions P q)) * vx s)
              (n32 (rotm (multiplyQuaternions P q)) * vy s)
              (n33 (rotm (multiplyQuaternions P q)) * vz s) prism_face_angles"
proof -
  have "rotm (multiplyQuaternions P q) = multiplyMatrices (rotm P) (rotm q)"
    by (simp add: rotm_mult)
  then show ?thesis
    by (simp add: compose_unit[OF assms(1)] compose_unit[OF assms(2)] multiplyMatrices_def
          algebra_simps)
qed

lemma decompose_placed:
  assumes "qnorm2 P = 1" "qnorm2 q = 1" "0 < vx s" "0 < vy s" "0 < vz s"
  shows "\<exists>t Q. decompose (multiplyMatrices (compose tb P (Vec3 1 1 1)) (compose p q s))
                  = Inr (t, Q, s)
           \<and> (Q = multiplyQuaternions P q \<or> Q = qscale (- 1) (multiplyQuaternions P q))"
proof -
  let ?W = "multiplyQuaternions P q"
  have uW: "qnorm2 ?W = 1" by (simp add: qnorm2_mult assms)
  from placed_matrix[OF assms(1,2), of tb p s] obtain t1 t2 prism_face_angles where
    M: "multiplyMatrices (compose tb P (Vec3 1 1 1)) (compose p q s)
       = Mat4 (n11 (rotm ?W) * vx s) (n12 (rotm ?W) * vy s) (n13 (rotm ?W) * vz s) t1
              (n21 (rotm ?W) * vx s) (n22 (rotm ?W) * vy s) (n23 (rotm ?W) * vz s) t2
              (n31 (rotm ?W) * vx s) (n32 (rotm ?W) * vy s) (n33 (rotm ?W) * vz s) prism_face_angles"
    by blast
  have R: "Mat4 (n11 (rotm ?W)) (n12 (rotm ?W)) (n13 (rotm ?W)) 0
                (n21 (rotm ?W)) (n22 (rotm ?W)) (n23 (rotm ?W)) 0
                (n31 (rotm ?W)) (n32 (rotm ?W)) (n33 (rotm ?W)) 0 = rotm ?W"
    by (simp add: rotm_def)
  have cols: "n11 (rotm ?W) * n11 (rotm ?W) + n21 (rotm ?W) * n21 (rotm ?W) + n31 (rotm ?W) * n31 (rotm ?W) = 1"
    "n12 (rotm ?W) * n12 (rotm ?W) + n22 (rotm ?W) * n22 (rotm ?W) + n32 (rotm ?W) * n32 (rotm ?W) = 1"
    "n13 (rotm ?W) * n13 (rotm ?W) + n23 (rotm ?W) * n23 (rotm ?W) + n33 (rotm ?W) * n33 (rotm ?W) = 1"
    by (simp_all only: rotm_columns uW mult_1)
  have det: "determinant (Mat4 (n11 (rotm ?W)) (n12 (rotm ?W)) (n13 (rotm ?W)) 0
                (n21 (rotm ?W)) (n22 (rotm ?W)) (n23 (rotm ?W)) 0
                (n31 (rotm ?W)) (n32 (rotm ?W)) (n33 (rotm ?W)) 0) = 1"
    by (simp only: R rotm_det uW mult_1)
  have "decompose (multiplyMatrices (compose tb P (Vec3 1 1 1)) (compose p q s))
          = Inr (Vec3 t1 t2 prism_face_angles, setFromRotationMatrix (rotm ?W), Vec3 (vx s) (vy s) (vz s))"
    using decompose_scaled_rotation[OF cols det assms(3-5), of t1 t2 prism_face_angles]
    by (simp only: M R)
  then show ?thesis
    using setFromRotationMatrix_rotm[OF uW] by auto
qed

lemma determinant_compose_unit:
  assumes "qnorm2 P = 1"
  shows "determinant (compose tb P (Vec3 1 1 1)) = 1"
proof -
  have "determinant (compose tb P (Vec3 1 1 1)) = determinant (rotm P)"
    by (simp add: compose_unit[OF assms] determinant_def)
  then show ?thesis by (simp add: rotm_det assms)
qed

lemma forEach_face_None:
  "forEach_face None q fs acc = Inr cands \<Longrightarrow> fs = [] \<and> cands = acc"
  by (cases fs) simp_all

lemma layflat_candidates_cases:
  assumes "layflat_candidates bedRelative obj = Inr (Q, c # cs)"
  shows "\<exists>g t s. obj_hull obj = Some g \<and> decompose (matrixWorld obj) = Inr (t, Q, s)
           \<and> vertices g \<noteq> []"
proof -
  from assms obtain g where g: "obj_hull obj = Some g"
    by (auto simp: layflat_candidates_def split: option.splits)
  from assms g obtain t s where d: "decompose (matrixWorld obj) = Inr (t, Q, s)"
    by (auto simp: layflat_candidates_def Let_def split: sum.splits)
  from assms g d obtain cands where
    f: "forEach_face (findLowestPoint bedRelative obj g None) Q (faces g) [] = Inr cands"
    and srt: "sort_key angle cands = c # cs"
    by (auto simp: layflat_candidates_def Let_def split: sum.splits)
  have ne: "cands \<noteq> []" using srt by auto
  have "findLowestPoint bedRelative obj g None \<noteq> None"
  proof
    assume "findLowestPoint bedRelative obj g None = None"
    then have "cands = []" using f forEach_face_None by fastforce
    then show False using ne by simp
  qed
  then have "vertices g \<noteq> []"
    by (auto simp: findLowestPoint_def)
  with g d show ?thesis by blast
qed

lemma hull_points_hull:
  assumes "obj_hull obj = Some g" "vertices g \<noteq> []"
  shows "hull_points (Object3D p q s w (obj_hull obj) (children obj)) \<noteq> []"
  using assms by simp

section \<open>Lay flat on the prism\<close>

lemma arccos_7_25: "arccos (7 / 25) < pi / 2"
proof -
  have "arccos (7 / 25) < arccos 0"
    by (rule arccos_less_arccos) simp_all
  then show ?thesis by simp
qed

lemma bed_compose:
  "compose (Vec3 150 0 (- 150)) (Quat 0 (sqrt 2 / 2) (sqrt 2 / 2) 0) (Vec3 1 1 1)
     = Mat4 (- 1) 0 0 150  0 0 1 0  0 1 0 (- 150)"
  by (simp add: compose_def Let_def)

lemma prism_face_angles:
  "face_angle (Quat 0 (sqrt 2 / 2) (sqrt 2 / 2) 0) (Face3 a b c (Vec3 0 (- 1) 0)) = pi / 2"
  "face_angle (Quat 0 (sqrt 2 / 2) (sqrt 2 / 2) 0) (Face3 a b c (Vec3 (- 1) 0 0)) = pi / 2"
  "face_angle (Quat 0 (sqrt 2 / 2) (sqrt 2 / 2) 0) (Face3 a b c (Vec3 (24 / 25) 0 (- (7 / 25))))
     = arccos (7 / 25)"
  by (simp_all add: face_angle_def dot_def applyQuaternion_def downVector_def Let_def)

lemma prism_in_range:
  "in_range (Quat 0 (sqrt 2 / 2) (sqrt 2 / 2) 0) (Face3 a b c (Vec3 0 (- 1) 0))"
  "in_range (Quat 0 (sqrt 2 / 2) (sqrt 2 / 2) 0) (Face3 a b c (Vec3 (- 1) 0 0))"
  "in_range (Quat 0 (sqrt 2 / 2) (sqrt 2 / 2) 0) (Face3 a b c (Vec3 (24 / 25) 0 (- (7 / 25))))"
  by (simp_all add: in_range_def dot_def applyQuaternion_def downVector_def Let_def)

lemma prism_sort: "sort_key angle
     [\<lparr>angle = pi / 2, cnormal = Vec3 0 (- 1) 0\<rparr>,
      \<lparr>angle = pi / 2, cnormal = Vec3 (- 1) 0 0\<rparr>,
      \<lparr>angle = pi / 2, cnormal = Vec3 (- 1) 0 0\<rparr>,
      \<lparr>angle = arccos (7 / 25), cnormal = Vec3 (24 / 25) 0 (- (7 / 25))\<rparr>,
      \<lparr>angle = arccos (7 / 25), cnormal = Vec3 (24 / 25) 0 (- (7 / 25))\<rparr>]
   = [\<lparr>angle = arccos (7 / 25), cnormal = Vec3 (24 / 25) 0 (- (7 / 25))\<rparr>,
      \<lparr>angle = arccos (7 / 25), cnormal = Vec3 (24 / 25) 0 (- (7 / 25))\<rparr>,
      \<lparr>angle = pi / 2, cnormal = Vec3 0 (- 1) 0\<rparr>,
      \<lparr>angle = pi / 2, cnormal = Vec3 (- 1) 0 0\<rparr>,
      \<lparr>angle = pi / 2, cnormal = Vec3 (- 1) 0 0\<rparr>]"
  using arccos_7_25 by (simp add: not_le[symmetric])

lemma prism_arc: "setFromUnitVectors (Vec3 (24 / 25) 0 (- (7 / 25))) (Vec3 0 0 (- 1)) = Quat 0 (3 / 5) 0 (4 / 5)"
  by (simp add: setFromUnitVectors_def dot_def EPS_def normalize_quat_def qlength_def Let_def
        real_sqrt_divide)

lemma prism_candidates:
  assumes "decompose mw = Inr (t, Quat 0 (sqrt 2 / 2) (sqrt 2 / 2) 0, s)"
    and "findLowestPoint bed (Object3D p q sc mw (Some prism) []) prism None = Some piv"
    and "lp_index piv = 0"
  shows "layflat_candidates bed (Object3D p q sc mw (Some prism) [])
     = Inr (Quat 0 (sqrt 2 / 2) (sqrt 2 / 2) 0,
         [\<lparr>angle = arccos (7 / 25), cnormal = Vec3 (24 / 25) 0 (- (7 / 25))\<rparr>,
          \<lparr>angle = arccos (7 / 25), cnormal = Vec3 (24 / 25) 0 (- (7 / 25))\<rparr>,
          \<lparr>angle = pi / 2, cnormal = Vec3 0 (- 1) 0\<rparr>,
          \<lparr>angle = pi / 2, cnormal = Vec3 (- 1) 0 0\<rparr>,
          \<lparr>angle = pi / 2, cnormal = Vec3 (- 1) 0 0\<rparr>])"
proof -
  have rng: "\<forall>face\<in>set (faces prism). touches (lp_index piv) face
               \<longrightarrow> in_range (Quat 0 (sqrt 2 / 2) (sqrt 2 / 2) 0) face"
    by (simp add: prism_def touches_def assms(3) prism_in_range)
  have "layflat_candidates bed (Object3D p q sc mw (Some prism) [])
          = Inr (Quat 0 (sqrt 2 / 2) (sqrt 2 / 2) 0,
                 sort_key angle
                   (map (\<lambda>face. \<lparr>angle = face_angle (Quat 0 (sqrt 2 / 2) (sqrt 2 / 2) 0) face,
                                  cnormal = normal face\<rparr>)
                      (filter (touches (lp_index piv)) (faces prism))))"
    by (rule layflat_candidates_eq[OF _ assms(2) _ rng]) (simp_all add: assms(1))
  also have "filter (touches (lp_index piv)) (faces prism)
        = [Face3 0 2 1 (Vec3 0 (- 1) 0), Face3 0 3 5 (Vec3 (- 1) 0 0), Face3 0 5 2 (Vec3 (- 1) 0 0),
           Face3 0 1 4 (Vec3 (24 / 25) 0 (- (7 / 25))), Face3 0 4 3 (Vec3 (24 / 25) 0 (- (7 / 25)))]"
    by (simp add: prism_def touches_def assms(3))
  finally show ?thesis
    by (simp only: list.map prism_face_angles face3.sel prism_sort)
qed

lemma scaled_run:
  "layObjectFlat (Mat4 (- 1) 0 0 150  0 0 1 0  0 1 0 (- 150))
     (Object3D (Vec3 100 100 0) (Quat 0 0 0 1) (Vec3 2 1 1)
        (Mat4 (- 2) 0 0 50  0 0 1 0  0 1 0 (- 50)) (Some prism) [])
   = Inr (Object3D (Vec3 100 100 (168 / 25)) (Quat 0 (3 / 5) 0 (4 / 5)) (Vec3 2 1 1)
        (Mat4 (- (14 / 25)) 0 (- (24 / 25)) 50  (- (48 / 25)) 0 (7 / 25) 0  0 1 0 (- 50))
        (Some prism) [])"
proof -
  let ?B = "Mat4 (- 1) 0 0 150  0 0 1 0  0 1 0 (- 150)"
  let ?O = "Object3D (Vec3 100 100 0) (Quat 0 0 0 1) (Vec3 2 1 1)
        (Mat4 (- 2) 0 0 50  0 0 1 0  0 1 0 (- 50)) (Some prism) []"
  have piv: "findLowestPoint ?B ?O prism None
     = Some \<lparr>lp_object = ?O, lp_vertex = Vec3 0 0 0, lp_index = 0, lp_z = 0\<rparr>"
    by (simp add: findLowestPoint_def prism_def localToBed_def worldToLocal_def localToWorld_def
        getInverse_def determinant_def applyMatrix4_def Let_def)
  have dec: "decompose (Mat4 (- 2) 0 0 50  0 0 1 0  0 1 0 (- 50))
   = Inr (Vec3 50 0 (- 50), Quat 0 (sqrt 2 / 2) (sqrt 2 / 2) 0, Vec3 2 1 1)"
    by (simp add: decompose_def vlength_def determinant_def setFromRotationMatrix_def Let_def real_div_sqrt)
  have c: "layflat_candidates ?B ?O
     = Inr (Quat 0 (sqrt 2 / 2) (sqrt 2 / 2) 0,
         [\<lparr>angle = arccos (7 / 25), cnormal = Vec3 (24 / 25) 0 (- (7 / 25))\<rparr>,
          \<lparr>angle = arccos (7 / 25), cnormal = Vec3 (24 / 25) 0 (- (7 / 25))\<rparr>,
          \<lparr>angle = pi / 2, cnormal = Vec3 0 (- 1) 0\<rparr>,
          \<lparr>angle = pi / 2, cnormal = Vec3 (- 1) 0 0\<rparr>,
          \<lparr>angle = pi / 2, cnormal = Vec3 (- 1) 0 0\<rparr>])"
    by (rule prism_candidates[OF dec piv]) simp
  have d: "applyQuaternion downVector (inverse_quat (Quat 0 (sqrt 2 / 2) (sqrt 2 / 2) 0)) = Vec3 0 0 (- 1)"
    by (simp add: applyQuaternion_def downVector_def inverse_quat_def Let_def)
  have m: "multiplyQuaternions (Quat 0 0 0 1) (Quat 0 (3 / 5) 0 (4 / 5)) = Quat 0 (3 / 5) 0 (4 / 5)"
    by (simp add: multiplyQuaternions_def)
  have drop: "dropObjectToFloor ?B
      (Object3D (Vec3 100 100 0) (Quat 0 (3 / 5) 0 (4 / 5)) (Vec3 2 1 1)
        (Mat4 (- 2) 0 0 50  0 0 1 0  0 1 0 (- 50)) (Some prism) [])
    = Inr (Object3D (Vec3 100 100 (168 / 25)) (Quat 0 (3 / 5) 0 (4 / 5)) (Vec3 2 1 1)
        (Mat4 (- (14 / 25)) 0 (- (24 / 25)) 50  (- (48 / 25)) 0 (7 / 25) 0  0 1 0 (- 50))
        (Some prism) [])"
    by (simp add: dropObjectToFloor_def findLowestPoint_def prism_def localToBed_def
          worldToLocal_def localToWorld_def getInverse_def determinant_def compose_def
          multiplyMatrices_def applyMatrix4_def Let_def)
  show ?thesis
    by (simp add: layObjectFlat_def c Let_def d prism_arc m drop)
qed



lemma placed_prism_pivot:
  "findLowestPoint (Mat4 (- 1) 0 0 150  0 0 1 0  0 1 0 (- 150))
     (Object3D (Vec3 100 100 0) (Quat 0 0 0 1) (Vec3 1 1 1)
        (Mat4 (- 1) 0 0 50  0 0 1 0  0 1 0 (- 50)) (Some prism) []) prism None
   = Some \<lparr>lp_object = Object3D (Vec3 100 100 0) (Quat 0 0 0 1) (Vec3 1 1 1)
        (Mat4 (- 1) 0 0 50  0 0 1 0  0 1 0 (- 50)) (Some prism) [],
        lp_vertex = Vec3 0 0 0, lp_index = 0, lp_z = 0\<rparr>"
  by (simp add: findLowestPoint_def prism_def localToBed_def worldToLocal_def localToWorld_def
        getInverse_def determinant_def applyMatrix4_def Let_def)

lemma placed_prism_decompose:
  "decompose (Mat4 (- 1) 0 0 50  0 0 1 0  0 1 0 (- 50))
   = Inr (Vec3 50 0 (- 50), Quat 0 (sqrt 2 / 2) (sqrt 2 / 2) 0, Vec3 1 1 1)"
  by (simp add: decompose_def vlength_def determinant_def setFromRotationMatrix_def Let_def real_div_sqrt)

lemma placed_prism_candidates:
  "layflat_candidates (Mat4 (- 1) 0 0 150  0 0 1 0  0 1 0 (- 150))
     (Object3D (Vec3 100 100 0) (Quat 0 0 0 1) (Vec3 1 1 1)
        (Mat4 (- 1) 0 0 50  0 0 1 0  0 1 0 (- 50)) (Some prism) [])
     = Inr (Quat 0 (sqrt 2 / 2) (sqrt 2 / 2) 0,
         [\<lparr>angle = arccos (7 / 25), cnormal = Vec3 (24 / 25) 0 (- (7 / 25))\<rparr>,
          \<lparr>angle = arccos (7 / 25), cnormal = Vec3 (24 / 25) 0 (- (7 / 25))\<rparr>,
          \<lparr>angle = pi / 2, cnormal = Vec3 0 (- 1) 0\<rparr>,
          \<lparr>angle = pi / 2, cnormal = Vec3 (- 1) 0 0\<rparr>,
          \<lparr>angle = pi / 2, cnormal = Vec3 (- 1) 0 0\<rparr>])"
  by (rule prism_candidates[OF placed_prism_decompose placed_prism_pivot]) simp

lemma mirrored_matrix:
  "multiplyMatrices (Mat4 (- 1) 0 0 150  0 0 1 0  0 1 0 (- 150))
     (compose (Vec3 100 100 0) (Quat 0 (3 / 5) 0 (4 / 5)) (Vec3 1 (- 1) 1))
   = Mat4 (- (7 / 25)) 0 (- (24 / 25)) 50  (- (24 / 25)) 0 (7 / 25) 0  0 (- 1) 0 (- 50)"
  by (simp add: compose_def multiplyMatrices_def Let_def)
























lemma scaled_heights_after:
  "hull_heights (Mat4 (- 1) 0 0 150  0 0 1 0  0 1 0 (- 150))
     (updateMatrixWorld (Mat4 (- 1) 0 0 150  0 0 1 0  0 1 0 (- 150))
        (Object3D (Vec3 100 100 (168 / 25)) (Quat 0 (3 / 5) 0 (4 / 5)) (Vec3 2 1 1)
           (Mat4 (- (14 / 25)) 0 (- (24 / 25)) 50  (- (48 / 25)) 0 (7 / 25) 0  0 1 0 (- 50))
           (Some prism) []))
   = [168 / 25, 0, 336 / 25, 168 / 25, 0, 336 / 25]"
  by (simp add: prism_def localToBed_def worldToLocal_def localToWorld_def
        getInverse_def determinant_def applyMatrix4_def compose_def multiplyMatrices_def
        Let_def)

lemma scaled_carry:
  "carry_direction
     (matrixWorld (updateMatrixWorld (Mat4 (- 1) 0 0 150  0 0 1 0  0 1 0 (- 150))
        (Object3D (Vec3 100 100 (168 / 25)) (Quat 0 (3 / 5) 0 (4 / 5)) (Vec3 2 1 1)
           (Mat4 (- (14 / 25)) 0 (- (24 / 25)) 50  (- (48 / 25)) 0 (7 / 25) 0  0 1 0 (- 50))
           (Some prism) [])))
     (Vec3 (24 / 25) 0 (- (7 / 25)))
   = Vec3 (- (168 / 625)) (- (1201 / 625)) 0"
  by (simp add: carry_direction_def multiplyMatrices_def compose_def Let_def)

lemma scaled_fresh:
  "updateMatrixWorld (Mat4 (- 1) 0 0 150  0 0 1 0  0 1 0 (- 150))
     (Object3D (Vec3 100 100 0) (Quat 0 0 0 1) (Vec3 2 1 1)
        (Mat4 (- 2) 0 0 50  0 0 1 0  0 1 0 (- 50)) (Some prism) [])
   = Object3D (Vec3 100 100 0) (Quat 0 0 0 1) (Vec3 2 1 1)
        (Mat4 (- 2) 0 0 50  0 0 1 0  0 1 0 (- 50)) (Some prism) []"
  by (simp add: compose_def multiplyMatrices_def Let_def)

lemma scaled_heights:
  "hull_heights (Mat4 (- 1) 0 0 150  0 0 1 0  0 1 0 (- 150))
     (Object3D (Vec3 100 100 0) (Quat 0 0 0 1) (Vec3 2 1 1)
        (Mat4 (- 2) 0 0 50  0 0 1 0  0 1 0 (- 50)) (Some prism) [])
   = [0, 24, 24, 0, 24, 24]"
  by (simp add: prism_def localToBed_def worldToLocal_def localToWorld_def
        getInverse_def determinant_def applyMatrix4_def Let_def)

lemma scaled_candidates:
  "layflat_candidates (Mat4 (- 1) 0 0 150  0 0 1 0  0 1 0 (- 150))
     (Object3D (Vec3 100 100 0) (Quat 0 0 0 1) (Vec3 2 1 1)
        (Mat4 (- 2) 0 0 50  0 0 1 0  0 1 0 (- 50)) (Some prism) [])
   = Inr (Quat 0 (sqrt 2 / 2) (sqrt 2 / 2) 0,
         [\<lparr>angle = arccos (7 / 25), cnormal = Vec3 (24 / 25) 0 (- (7 / 25))\<rparr>,
          \<lparr>angle = arccos (7 / 25), cnormal = Vec3 (24 / 25) 0 (- (7 / 25))\<rparr>,
          \<lparr>angle = pi / 2, cnormal = Vec3 0 (- 1) 0\<rparr>,
          \<lparr>angle = pi / 2, cnormal = Vec3 (- 1) 0 0\<rparr>,
          \<lparr>angle = pi / 2, cnormal = Vec3 (- 1) 0 0\<rparr>])"
proof -
  let ?B = "Mat4 (- 1) 0 0 150  0 0 1 0  0 1 0 (- 150)"
  let ?O = "Object3D (Vec3 100 100 0) (Quat 0 0 0 1) (Vec3 2 1 1)
        (Mat4 (- 2) 0 0 50  0 0 1 0  0 1 0 (- 50)) (Some prism) []"
  have piv: "findLowestPoint ?B ?O prism None
     = Some \<lparr>lp_object = ?O, lp_vertex = Vec3 0 0 0, lp_index = 0, lp_z = 0\<rparr>"
    by (simp add: findLowestPoint_def prism_def localToBed_def worldToLocal_def localToWorld_def
        getInverse_def determinant_def applyMatrix4_def Let_def)
  have dec: "decompose (Mat4 (- 2) 0 0 50  0 0 1 0  0 1 0 (- 50))
   = Inr (Vec3 50 0 (- 50), Quat 0 (sqrt 2 / 2) (sqrt 2 / 2) 0, Vec3 2 1 1)"
    by (simp add: decompose_def vlength_def determinant_def setFromRotationMatrix_def Let_def real_div_sqrt)
  show ?thesis
    by (rule prism_candidates[OF dec piv]) simp
qed


section \<open>Lay flat in exact arithmetic\<close>

text \<open>
  What the model of \<^verbatim>\<open>layObjectFlat\<close> establishes in exact arithmetic. When the hull has a
  lowest vertex, the world matrix decomposes and \<^verbatim>\<open>Math.acos\<close> is defined for every face
  touching that vertex, the candidates are exactly the faces touching the lowest vertex,
  each with the angle between its normal, rotated by the quaternion that
  \<^verbatim>\<open>decompose\<close> returned, and world down; the candidate taken first has the smallest
  such angle, and every touching face enumerated before it has a strictly larger one.
  That quaternion is the orientation of the object only when the object is not mirrored.
\<close>

lemma layflat_candidates_first_minimum:
  assumes "obj_hull obj = Some g"
    and "findLowestPoint bedRelative obj g None = Some pivot"
    and "decompose (matrixWorld obj) = Inr (t, q, s)"
    and "\<forall>face\<in>set (faces g). touches (lp_index pivot) face \<longrightarrow> in_range q face"
  shows "\<exists>cs. layflat_candidates bedRelative obj = Inr (q, cs)
           \<and> set cs = (\<lambda>face. \<lparr>angle = face_angle q face, cnormal = normal face\<rparr>)
                         ` {face \<in> set (faces g). touches (lp_index pivot) face}
           \<and> length cs = length (filter (touches (lp_index pivot)) (faces g))
           \<and> (cs \<noteq> [] \<longrightarrow>
                (\<exists>k<length (filter (touches (lp_index pivot)) (faces g)).
                   hd cs = \<lparr>angle = face_angle q (filter (touches (lp_index pivot)) (faces g) ! k),
                            cnormal = normal (filter (touches (lp_index pivot)) (faces g) ! k)\<rparr>
                   \<and> (\<forall>j<length (filter (touches (lp_index pivot)) (faces g)).
                         face_angle q (filter (touches (lp_index pivot)) (faces g) ! k)
                           \<le> face_angle q (filter (touches (lp_index pivot)) (faces g) ! j))
                   \<and> (\<forall>j<k. face_angle q (filter (touches (lp_index pivot)) (faces g) ! k)
                           < face_angle q (filter (touches (lp_index pivot)) (faces g) ! j))))
           \<and> layObjectFlat bedRelative obj
               = (if cs = [] then Inl (TypeError ''candidates[0] is undefined'')
                  else dropObjectToFloor bedRelative
                         (Object3D (position obj)
                            (multiplyQuaternions (quaternion obj)
                               (setFromUnitVectors (cnormal (hd cs))
                                  (applyQuaternion downVector (inverse_quat q))))
                            (scale obj) (matrixWorld obj) (obj_hull obj) (children obj)))"
proof -
  let ?inc = "filter (touches (lp_index pivot)) (faces g)"
  let ?mk = "\<lambda>face. \<lparr>angle = face_angle q face, cnormal = normal face\<rparr>"
  let ?cs = "sort_key angle (map ?mk ?inc)"
  have run: "layflat_candidates bedRelative obj = Inr (q, ?cs)"
    by (rule layflat_candidates_eq[OF assms])
  have st: "set ?cs = ?mk ` {face \<in> set (faces g). touches (lp_index pivot) face}"
    by simp
  have len: "length ?cs = length ?inc" by simp
  have choice: "\<exists>k<length ?inc. hd ?cs = ?mk (?inc ! k)
                   \<and> (\<forall>j<length ?inc. face_angle q (?inc ! k) \<le> face_angle q (?inc ! j))
                   \<and> (\<forall>j<k. face_angle q (?inc ! k) < face_angle q (?inc ! j))"
    if ne: "?cs \<noteq> []"
  proof -
    have "map ?mk ?inc \<noteq> []" using ne by (simp add: sort_key_Nil_iff)
    from hd_sort_key_first_min[OF this, of angle] obtain k where
      k: "k < length ?inc" and h: "hd ?cs = map ?mk ?inc ! k"
      and lo: "\<forall>j<length (map ?mk ?inc). angle (map ?mk ?inc ! k) \<le> angle (map ?mk ?inc ! j)"
      and first: "\<forall>j<k. angle (map ?mk ?inc ! k) < angle (map ?mk ?inc ! j)"
      by auto
    have "hd ?cs = ?mk (?inc ! k)" using h k by simp
    moreover have "\<forall>j<length ?inc. face_angle q (?inc ! k) \<le> face_angle q (?inc ! j)"
      using lo k by simp
    moreover have "\<forall>j<k. face_angle q (?inc ! k) < face_angle q (?inc ! j)"
      using first k by simp
    ultimately show ?thesis using k by blast
  qed
  have lay: "layObjectFlat bedRelative obj
               = (if ?cs = [] then Inl (TypeError ''candidates[0] is undefined'')
                  else dropObjectToFloor bedRelative
                         (Object3D (position obj)
                            (multiplyQuaternions (quaternion obj)
                               (setFromUnitVectors (cnormal (hd ?cs))
                                  (applyQuaternion downVector (inverse_quat q))))
                            (scale obj) (matrixWorld obj) (obj_hull obj) (children obj)))"
    by (cases ?cs) (simp_all add: layObjectFlat_def run Let_def)
  show ?thesis
    using run st len choice lay by blast
qed

lemma layflat_candidates_first_minimum_prism:
  "obj_hull (Object3D (Vec3 100 100 0) (Quat 0 0 0 1) (Vec3 1 1 1)
        (Mat4 (- 1) 0 0 50  0 0 1 0  0 1 0 (- 50)) (Some prism) []) = Some prism
   \<and> findLowestPoint (Mat4 (- 1) 0 0 150  0 0 1 0  0 1 0 (- 150))
       (Object3D (Vec3 100 100 0) (Quat 0 0 0 1) (Vec3 1 1 1)
          (Mat4 (- 1) 0 0 50  0 0 1 0  0 1 0 (- 50)) (Some prism) []) prism None
     = Some \<lparr>lp_object = Object3D (Vec3 100 100 0) (Quat 0 0 0 1) (Vec3 1 1 1)
          (Mat4 (- 1) 0 0 50  0 0 1 0  0 1 0 (- 50)) (Some prism) [],
          lp_vertex = Vec3 0 0 0, lp_index = 0, lp_z = 0\<rparr>
   \<and> decompose (Mat4 (- 1) 0 0 50  0 0 1 0  0 1 0 (- 50))
     = Inr (Vec3 50 0 (- 50), Quat 0 (sqrt 2 / 2) (sqrt 2 / 2) 0, Vec3 1 1 1)
   \<and> (\<exists>cs. layflat_candidates (Mat4 (- 1) 0 0 150  0 0 1 0  0 1 0 (- 150))
         (Object3D (Vec3 100 100 0) (Quat 0 0 0 1) (Vec3 1 1 1)
            (Mat4 (- 1) 0 0 50  0 0 1 0  0 1 0 (- 50)) (Some prism) [])
         = Inr (Quat 0 (sqrt 2 / 2) (sqrt 2 / 2) 0, cs)
       \<and> length cs = 5
       \<and> hd cs = \<lparr>angle = arccos (7 / 25), cnormal = Vec3 (24 / 25) 0 (- (7 / 25))\<rparr>)"
proof -
  let ?B = "Mat4 (- 1) 0 0 150  0 0 1 0  0 1 0 (- 150)"
  let ?O = "Object3D (Vec3 100 100 0) (Quat 0 0 0 1) (Vec3 1 1 1)
        (Mat4 (- 1) 0 0 50  0 0 1 0  0 1 0 (- 50)) (Some prism) []"
  let ?piv = "\<lparr>lp_object = ?O, lp_vertex = Vec3 0 0 0, lp_index = 0, lp_z = 0\<rparr>"
  let ?Q = "Quat 0 (sqrt 2 / 2) (sqrt 2 / 2) 0"
  have h1: "obj_hull ?O = Some prism" by simp
  have h3: "decompose (matrixWorld ?O) = Inr (Vec3 50 0 (- 50), ?Q, Vec3 1 1 1)"
    using placed_prism_decompose by simp
  have h4: "\<forall>face\<in>set (faces prism). touches (lp_index ?piv) face \<longrightarrow> in_range ?Q face"
    by (simp add: prism_def touches_def prism_in_range)
  have inc: "filter (touches (lp_index ?piv)) (faces prism)
        = [Face3 0 2 1 (Vec3 0 (- 1) 0), Face3 0 3 5 (Vec3 (- 1) 0 0), Face3 0 5 2 (Vec3 (- 1) 0 0),
           Face3 0 1 4 (Vec3 (24 / 25) 0 (- (7 / 25))), Face3 0 4 3 (Vec3 (24 / 25) 0 (- (7 / 25)))]"
    by (simp add: prism_def touches_def)
  from layflat_candidates_first_minimum[OF h1 placed_prism_pivot h3 h4]
  obtain cs where
    r: "layflat_candidates ?B ?O = Inr (?Q, cs)"
    and len: "length cs = length (filter (touches (lp_index ?piv)) (faces prism))"
    by blast
  have "length cs = 5" using len by (simp only: inc) simp
  moreover have "hd cs = \<lparr>angle = arccos (7 / 25), cnormal = Vec3 (24 / 25) 0 (- (7 / 25))\<rparr>"
    using r placed_prism_candidates by auto
  ultimately show ?thesis
    using h1 placed_prism_pivot placed_prism_decompose r by blast
qed

text \<open>
  Under a rigid bed frame with unit orientation \<open>P\<close>, for an object with a unit
  quaternion, positive scale and an up-to-date world matrix, and a chosen unit normal
  that is not within \<^verbatim>\<open>EPS\<close> of pointing exactly away from the down vector turned into
  object coordinates: \<^verbatim>\<open>layObjectFlat\<close> multiplies the object's quaternion on the right by
  the shortest-arc rotation from the chosen normal to that local down vector, the
  resulting world quaternion is the shortest-arc rotation from the rotated normal to world
  down multiplied on the left of the previous world quaternion, and it rotates the stored
  normal onto world down. The scale takes no part in this: the stored normal is the normal
  of the face in the world only for a uniformly scaled object.
\<close>

lemma layObjectFlat_world_orientation:
  assumes uP: "qlength P = 1"
    and bed: "bedRelative = compose tb P (Vec3 1 1 1)"
    and uq: "qlength (quaternion obj) = 1"
    and pos: "0 < vx (scale obj)" "0 < vy (scale obj)" "0 < vz (scale obj)"
    and mw: "matrixWorld obj
               = multiplyMatrices bedRelative (compose (position obj) (quaternion obj) (scale obj))"
    and ch: "layflat_candidates bedRelative obj = Inr (Q, c # cs)"
    and un: "vlength (cnormal c) = 1"
    and nd: "EPS \<le> dot (cnormal c)
                      (applyQuaternion downVector
                         (inverse_quat (multiplyQuaternions P (quaternion obj)))) + 1"
  shows "\<exists>obj'. layObjectFlat bedRelative obj = Inr obj'
           \<and> quaternion obj'
               = multiplyQuaternions (quaternion obj)
                   (setFromUnitVectors (cnormal c)
                      (applyQuaternion downVector
                         (inverse_quat (multiplyQuaternions P (quaternion obj)))))
           \<and> multiplyQuaternions P (quaternion obj')
               = spec_layFlat_orientation (multiplyQuaternions P (quaternion obj)) (cnormal c)
           \<and> applyQuaternion (cnormal c) (multiplyQuaternions P (quaternion obj')) = downVector"
proof -
  let ?W = "multiplyQuaternions P (quaternion obj)"
  let ?d = "applyQuaternion downVector (inverse_quat ?W)"
  let ?arc = "setFromUnitVectors (cnormal c) ?d"
  have nP: "qnorm2 P = 1" using uP by (simp add: qlength_one)
  have nq: "qnorm2 (quaternion obj) = 1" using uq by (simp add: qlength_one)
  have nW: "qnorm2 ?W = 1" by (simp add: qnorm2_mult nP nq)
  have n1: "dot (cnormal c) (cnormal c) = 1" using un by (simp add: vlength_one)
  from layflat_candidates_cases[OF ch] obtain g t s where
    g: "obj_hull obj = Some g" and dec: "decompose (matrixWorld obj) = Inr (t, Q, s)"
    and vs: "vertices g \<noteq> []"
    by blast
  from decompose_placed[OF nP nq pos, of tb "position obj"] dec
  have Q: "Q = ?W \<or> Q = qscale (- 1) ?W"
    by (auto simp: mw bed)
  have dQ: "applyQuaternion downVector (inverse_quat Q) = ?d"
    using Q by (auto simp: inverse_quat_qscale applyQuaternion_neg)
  let ?obj1 = "Object3D (position obj) (multiplyQuaternions (quaternion obj) ?arc)
                 (scale obj) (matrixWorld obj) (obj_hull obj) (children obj)"
  have lay: "layObjectFlat bedRelative obj = dropObjectToFloor bedRelative ?obj1"
    by (simp add: layObjectFlat_def ch Let_def dQ)
  have det: "determinant bedRelative \<noteq> 0"
    by (simp add: bed determinant_compose_unit[OF nP])
  have hp: "hull_points ?obj1 \<noteq> []"
    by (rule hull_points_hull[OF g vs])
  from dropObjectToFloor_heights[OF det hp] obtain obj' where
    r: "dropObjectToFloor bedRelative ?obj1 = Inr obj'"
    and q': "quaternion obj' = quaternion ?obj1"
    by blast
  have q'': "quaternion obj' = multiplyQuaternions (quaternion obj) ?arc"
    using q' by simp
  have w': "multiplyQuaternions P (quaternion obj') = multiplyQuaternions ?W ?arc"
    by (simp add: q'' multiplyQuaternions_assoc)
  show ?thesis
    using lay r q'' w' layflat_rotation_refines[OF nW n1 nd] by simp
qed

lemma layObjectFlat_world_orientation_prism:
  "qlength (Quat 0 (sqrt 2 / 2) (sqrt 2 / 2) 0) = 1
   \<and> Mat4 (- 1) 0 0 150  0 0 1 0  0 1 0 (- 150)
       = compose (Vec3 150 0 (- 150)) (Quat 0 (sqrt 2 / 2) (sqrt 2 / 2) 0) (Vec3 1 1 1)
   \<and> layflat_candidates (Mat4 (- 1) 0 0 150  0 0 1 0  0 1 0 (- 150))
       (Object3D (Vec3 100 100 0) (Quat 0 0 0 1) (Vec3 1 1 1)
          (Mat4 (- 1) 0 0 50  0 0 1 0  0 1 0 (- 50)) (Some prism) [])
       = Inr (Quat 0 (sqrt 2 / 2) (sqrt 2 / 2) 0,
           [\<lparr>angle = arccos (7 / 25), cnormal = Vec3 (24 / 25) 0 (- (7 / 25))\<rparr>,
            \<lparr>angle = arccos (7 / 25), cnormal = Vec3 (24 / 25) 0 (- (7 / 25))\<rparr>,
            \<lparr>angle = pi / 2, cnormal = Vec3 0 (- 1) 0\<rparr>,
            \<lparr>angle = pi / 2, cnormal = Vec3 (- 1) 0 0\<rparr>,
            \<lparr>angle = pi / 2, cnormal = Vec3 (- 1) 0 0\<rparr>])
   \<and> vlength (Vec3 (24 / 25) 0 (- (7 / 25))) = 1
   \<and> (\<exists>obj'. layObjectFlat (Mat4 (- 1) 0 0 150  0 0 1 0  0 1 0 (- 150))
         (Object3D (Vec3 100 100 0) (Quat 0 0 0 1) (Vec3 1 1 1)
            (Mat4 (- 1) 0 0 50  0 0 1 0  0 1 0 (- 50)) (Some prism) []) = Inr obj'
       \<and> quaternion obj' = Quat 0 (3 / 5) 0 (4 / 5)
       \<and> multiplyQuaternions (Quat 0 (sqrt 2 / 2) (sqrt 2 / 2) 0) (quaternion obj')
           = spec_layFlat_orientation
               (multiplyQuaternions (Quat 0 (sqrt 2 / 2) (sqrt 2 / 2) 0) (Quat 0 0 0 1))
               (Vec3 (24 / 25) 0 (- (7 / 25)))
       \<and> applyQuaternion (Vec3 (24 / 25) 0 (- (7 / 25)))
            (multiplyQuaternions (Quat 0 (sqrt 2 / 2) (sqrt 2 / 2) 0) (quaternion obj'))
           = downVector)"
proof -
  let ?P = "Quat 0 (sqrt 2 / 2) (sqrt 2 / 2) 0"
  let ?B = "Mat4 (- 1) 0 0 150  0 0 1 0  0 1 0 (- 150)"
  let ?O = "Object3D (Vec3 100 100 0) (Quat 0 0 0 1) (Vec3 1 1 1)
        (Mat4 (- 1) 0 0 50  0 0 1 0  0 1 0 (- 50)) (Some prism) []"
  let ?c = "\<lparr>angle = arccos (7 / 25), cnormal = Vec3 (24 / 25) 0 (- (7 / 25))\<rparr>"
  let ?cs = "[\<lparr>angle = arccos (7 / 25), cnormal = Vec3 (24 / 25) 0 (- (7 / 25))\<rparr>,
            \<lparr>angle = pi / 2, cnormal = Vec3 0 (- 1) 0\<rparr>,
            \<lparr>angle = pi / 2, cnormal = Vec3 (- 1) 0 0\<rparr>,
            \<lparr>angle = pi / 2, cnormal = Vec3 (- 1) 0 0\<rparr>]"
  have uP: "qlength ?P = 1" by (simp add: qlength_def)
  have bed: "?B = compose (Vec3 150 0 (- 150)) ?P (Vec3 1 1 1)"
    by (simp add: bed_compose)
  have uq: "qlength (quaternion ?O) = 1" by (simp add: qlength_def)
  have pos: "0 < vx (scale ?O)" "0 < vy (scale ?O)" "0 < vz (scale ?O)" by simp_all
  have mw: "matrixWorld ?O = multiplyMatrices ?B (compose (position ?O) (quaternion ?O) (scale ?O))"
    by (simp add: compose_def multiplyMatrices_def Let_def)
  have ch: "layflat_candidates ?B ?O = Inr (?P, ?c # ?cs)"
    by (rule placed_prism_candidates)
  have un: "vlength (cnormal ?c) = 1" by (simp add: vlength_def)
  have w: "multiplyQuaternions ?P (Quat 0 0 0 1) = ?P"
    by (simp add: multiplyQuaternions_def)
  have d: "applyQuaternion downVector (inverse_quat ?P) = Vec3 0 0 (- 1)"
    by (simp add: applyQuaternion_def downVector_def inverse_quat_def Let_def)
  have nd: "EPS \<le> dot (cnormal ?c)
              (applyQuaternion downVector (inverse_quat (multiplyQuaternions ?P (quaternion ?O)))) + 1"
    by (simp add: w d dot_def EPS_def)
  from layObjectFlat_world_orientation[OF uP bed uq pos mw ch un nd] obtain obj' where
    r: "layObjectFlat ?B ?O = Inr obj'"
    and q: "quaternion obj' = multiplyQuaternions (quaternion ?O)
              (setFromUnitVectors (cnormal ?c)
                 (applyQuaternion downVector
                    (inverse_quat (multiplyQuaternions ?P (quaternion ?O)))))"
    and sp: "multiplyQuaternions ?P (quaternion obj')
              = spec_layFlat_orientation (multiplyQuaternions ?P (quaternion ?O)) (cnormal ?c)"
    and dn: "applyQuaternion (cnormal ?c) (multiplyQuaternions ?P (quaternion obj')) = downVector"
    by blast
  have "quaternion obj' = Quat 0 (3 / 5) 0 (4 / 5)"
    by (simp add: q w d prism_arc multiplyQuaternions_def)
  moreover have "vlength (Vec3 (24 / 25) 0 (- (7 / 25))) = 1" using un by simp
  ultimately show ?thesis
    using uP bed ch r sp dn by auto
qed

section \<open>Baking on clones\<close>

lemma bake_result:
  assumes "well_formed s bedRelative obj"
  shows "\<exists>s'. bake bedRelative s obj = Inr (length s, s')
           \<and> length s' = length s + 3
           \<and> take (length s) s' = s
           \<and> s' ! length s = baked s bedRelative obj"
proof -
  from assms obtain vs b m bed where
    g: "geometry_at obj < length s" "s ! geometry_at obj = GeometryCell vs b"
    and w: "matrixWorld_at obj < length s" "s ! matrixWorld_at obj = Matrix4Cell m"
    and bd: "bedRelative < length s" "s ! bedRelative = Matrix4Cell bed"
    unfolding well_formed_def by blast
  show ?thesis
    using g w bd
    by (simp add: bake_def clone_def matrix_at_def applyMatrix_def computeBoundingBox_def
          baked_def Let_def nth_append list_update_append)
qed


lemma take_nth:
  assumes "take (length s) s' = s" and "a < length s"
  shows "s' ! a = s ! a"
  using assms by (metis nth_take)

lemma well_formed_extend:
  assumes "take (length s) s' = s" and "well_formed s bedRelative obj"
  shows "well_formed s' bedRelative obj \<and> baked s' bedRelative obj = baked s bedRelative obj"
proof -
  have "length (take (length s) s') = length s"
    using assms(1) by simp
  then have len: "length s \<le> length s'"
    by simp
  from assms(2) obtain vs b m bed where
    g: "geometry_at obj < length s" "s ! geometry_at obj = GeometryCell vs b"
    and w: "matrixWorld_at obj < length s" "s ! matrixWorld_at obj = Matrix4Cell m"
    and bd: "bedRelative < length s" "s ! bedRelative = Matrix4Cell bed"
    unfolding well_formed_def by blast
  have "s' ! geometry_at obj = GeometryCell vs b" "s' ! matrixWorld_at obj = Matrix4Cell m"
    "s' ! bedRelative = Matrix4Cell bed"
    using take_nth[OF assms(1)] g w bd by simp_all
  then show ?thesis
    using g w bd len by (simp add: well_formed_def baked_def)
qed

lemma getAllGeometry_result:
  assumes "\<forall>obj\<in>set objs. well_formed s bedRelative obj"
  shows "\<exists>geometries s'. getAllGeometry bedRelative s objs = Inr (geometries, s')
           \<and> length geometries = length objs
           \<and> length s \<le> length s'
           \<and> take (length s) s' = s
           \<and> (\<forall>i<length objs.
                 length s \<le> geometries ! i \<and> geometries ! i < length s'
                 \<and> s' ! (geometries ! i) = baked s bedRelative (objs ! i))"
  using assms
proof (induction objs arbitrary: s)
  case Nil
  show ?case by simp
next
  case (Cons obj objs)
  have wf: "well_formed s bedRelative obj" using Cons.prems by simp
  from bake_result[OF wf] obtain s1 where
    b: "bake bedRelative s obj = Inr (length s, s1)"
    and l1: "length s1 = length s + 3"
    and t1: "take (length s) s1 = s"
    and c1: "s1 ! length s = baked s bedRelative obj"
    by blast
  have wf1: "\<forall>ob\<in>set objs. well_formed s1 bedRelative ob"
    using Cons.prems well_formed_extend[OF t1] by simp
  from Cons.IH[OF wf1] obtain gs s2 where
    r: "getAllGeometry bedRelative s1 objs = Inr (gs, s2)"
    and lg: "length gs = length objs"
    and l2: "length s1 \<le> length s2"
    and t2: "take (length s1) s2 = s1"
    and each: "\<forall>i<length objs.
                 length s1 \<le> gs ! i \<and> gs ! i < length s2
                 \<and> s2 ! (gs ! i) = baked s1 bedRelative (objs ! i)"
    by blast
  have run: "getAllGeometry bedRelative s (obj # objs) = Inr (length s # gs, s2)"
    using b r by simp
  have t: "take (length s) s2 = s"
  proof -
    have "take (length s) s2 = take (length s) (take (length s1) s2)"
      using l1 by (simp add: min_def)
    then show ?thesis using t1 t2 by simp
  qed
  have first: "s2 ! length s = baked s bedRelative obj"
    using take_nth[OF t2, of "length s"] l1 c1 by simp
  have rest: "length s \<le> gs ! i \<and> gs ! i < length s2
                 \<and> s2 ! (gs ! i) = baked s bedRelative (objs ! i)"
    if "i < length objs" for i
  proof -
    have "objs ! i \<in> set objs" using that by simp
    then have "baked s1 bedRelative (objs ! i) = baked s bedRelative (objs ! i)"
      using well_formed_extend[OF t1] Cons.prems by simp
    then show ?thesis using each that l1 by auto
  qed
  have all: "\<forall>i<length (obj # objs).
                 length s \<le> (length s # gs) ! i \<and> (length s # gs) ! i < length s2
                 \<and> s2 ! ((length s # gs) ! i) = baked s bedRelative ((obj # objs) ! i)"
  proof (intro allI impI)
    fix i assume "i < length (obj # objs)"
    then show "length s \<le> (length s # gs) ! i \<and> (length s # gs) ! i < length s2
                 \<and> s2 ! ((length s # gs) ! i) = baked s bedRelative ((obj # objs) ! i)"
      using first rest l1 l2 by (cases i) auto
  qed
  show ?case
    using run lg l1 l2 t all by auto
qed


section \<open>The packing run: invariant\<close>

lemma packingUpdate_frame:
  "packingUpdate us s = Inr t \<Longrightarrow>
     packer t = packer s \<and> running t = running s \<and> calls t = calls s"
  by (induction us s rule: packingUpdate.induct) (auto split: if_splits)

lemma packingFinished_inv:
  "packer_inv s \<Longrightarrow> packingFinished s = Inr t \<Longrightarrow> packer_inv t"
  by (auto simp: packer_inv_def packingFinished_def split: option.splits)

lemma arrange_inv:
  assumes "packer_inv s" "arrangeObjectsOnPlatform s = Inr t"
  shows "packer_inv t"
  using assms
  by (auto simp: packer_inv_def arrangeObjectsOnPlatform_def packingFinished_def selectNone_def
        new_packer_def Let_def split: option.splits if_splits)

lemma reachable_inv: "reachable s \<Longrightarrow> packer_inv s"
proof (induction rule: reachable.induct)
  case start
  show ?case by (simp add: packer_inv_def Stage_def)
next
  case (arrange s t)
  then show ?case using arrange_inv by blast
next
  case (add s obj t)
  have "packer_inv (s\<lparr>objects := objects s @ [obj]\<rparr>)"
    using add.IH by (auto simp: packer_inv_def split: option.splits)
  then show ?case using add.hyps(2) arrange_inv by blast
next
  case (remove s)
  then show ?case by (auto simp: packer_inv_def removeObjects_def selectNone_def split: option.splits)
next
  case (deselect s)
  then show ?case by (auto simp: packer_inv_def selectNone_def split: option.splits)
next
  case (select s i)
  then show ?case by (auto simp: packer_inv_def addObjectToSelection_def split: option.splits)
next
  case (onMove s p us t)
  then show ?case using packingUpdate_frame[of us s t] by (auto simp: packer_inv_def split: option.splits)
next
  case (onMoveEnd s p t)
  then show ?case using packingFinished_inv by blast
qed

lemma arrange_calls:
  assumes "packer_id = length (calls s @ map Destroy (running s))" and "packer_inv s"
  shows "\<exists>t. arrangeObjectsOnPlatform s = Inr t
           \<and> running t = [packer_id] \<and> packer t = Some packer_id
           \<and> packer_id \<notin> set (running s)
           \<and> calls t = calls s @ map Destroy (running s) @ [New packer_id, Update packer_id]"
  using assms
  by (auto simp: packer_inv_def arrangeObjectsOnPlatform_def packingFinished_def selectNone_def
        new_packer_def Let_def split: option.splits)


lemma reachable_stage1: "reachable stage1"
proof -
  have "arrangeObjectsOnPlatform Stage = Inr stage1"
    by (simp add: arrangeObjectsOnPlatform_def Stage_def selectNone_def new_packer_def stage1_def)
  then show ?thesis using reachable.start reachable.arrange by blast
qed


section \<open>Results\<close>

text \<open>
  C1: for every object below which some mesh has a hull vertex, and a bed frame with an
  invertible world matrix, \<^verbatim>\<open>dropObjectToFloor\<close> returns the object with the X and Y
  components of its position, its quaternion and its scale as they were, and once the
  world matrices are refreshed the lowest bed-space height over all hull vertices is 0.
\<close>

theorem dropObjectToFloor_lands_on_bed:
  assumes "determinant bedRelative \<noteq> 0"
    and "hull_points obj \<noteq> []"
  shows "\<exists>obj'. dropObjectToFloor bedRelative obj = Inr obj'
           \<and> vx (position obj') = vx (position obj)
           \<and> vy (position obj') = vy (position obj)
           \<and> quaternion obj' = quaternion obj
           \<and> scale obj' = scale obj
           \<and> Min (set (hull_heights bedRelative (updateMatrixWorld bedRelative obj'))) = 0"
proof -
  let ?zs = "local_heights identity obj"
  from dropObjectToFloor_heights[OF assms] obtain obj1 where
    res: "dropObjectToFloor bedRelative obj = Inr obj1"
    and pos: "position obj1 = Vec3 (vx (position obj)) (vy (position obj))
                                (vz (position obj) - Min (set ?zs))"
    and rest: "quaternion obj1 = quaternion obj" "scale obj1 = scale obj"
    and hs: "local_heights identity obj1 = map (\<lambda>h. h - Min (set ?zs)) ?zs"
    by blast
  have "Min (set (hull_heights bedRelative (updateMatrixWorld bedRelative obj1)))
          = Min (set ?zs) - Min (set ?zs)"
    by (simp only: hull_heights_bed[OF assms(1)] hs
          Min_shift[OF local_heights_nonempty[OF assms(2)]])
  then show ?thesis using res pos rest by simp
qed

theorem dropObjectToFloor_lands_on_bed_witness:
  "determinant (Mat4 (- 1) 0 0 150  0 0 1 0  0 1 0 (- 150)) \<noteq> 0
   \<and> hull_points (Object3D (Vec3 10 20 5) (Quat 0 0 0 1) (Vec3 1 1 1) identity
         (Some \<lparr>vertices = [Vec3 0 0 0, Vec3 1 0 (- 2), Vec3 0 1 3], faces = []\<rparr>) []) \<noteq> []
   \<and> (\<exists>obj'. dropObjectToFloor (Mat4 (- 1) 0 0 150  0 0 1 0  0 1 0 (- 150))
         (Object3D (Vec3 10 20 5) (Quat 0 0 0 1) (Vec3 1 1 1) identity
           (Some \<lparr>vertices = [Vec3 0 0 0, Vec3 1 0 (- 2), Vec3 0 1 3], faces = []\<rparr>) []) = Inr obj'
        \<and> position obj' = Vec3 10 20 2
        \<and> Min (set (hull_heights (Mat4 (- 1) 0 0 150  0 0 1 0  0 1 0 (- 150))
                  (updateMatrixWorld (Mat4 (- 1) 0 0 150  0 0 1 0  0 1 0 (- 150)) obj'))) = 0)"
proof -
  let ?B = "Mat4 (- 1) 0 0 150  0 0 1 0  0 1 0 (- 150)"
  let ?O = "Object3D (Vec3 10 20 5) (Quat 0 0 0 1) (Vec3 1 1 1) identity
         (Some \<lparr>vertices = [Vec3 0 0 0, Vec3 1 0 (- 2), Vec3 0 1 3], faces = []\<rparr>) []"
  have h1: "determinant ?B \<noteq> 0" by (simp add: determinant_def)
  have h2: "hull_points ?O \<noteq> []" by simp
  have run: "dropObjectToFloor ?B ?O = Inr (Object3D (Vec3 10 20 2) (Quat 0 0 0 1) (Vec3 1 1 1)
       (Mat4 (- 1) 0 0 140  0 0 1 5  0 1 0 (- 130))
       (Some \<lparr>vertices = [Vec3 0 0 0, Vec3 1 0 (- 2), Vec3 0 1 3], faces = []\<rparr>) [])"
    by (simp add: dropObjectToFloor_def findLowestPoint_def localToBed_def worldToLocal_def
          localToWorld_def getInverse_def determinant_def compose_def multiplyMatrices_def
          applyMatrix4_def identity_def Let_def)
  from dropObjectToFloor_lands_on_bed[OF h1 h2] obtain obj' where
    r: "dropObjectToFloor ?B ?O = Inr obj'"
    and m: "Min (set (hull_heights ?B (updateMatrixWorld ?B obj'))) = 0"
    by blast
  from r run have "position obj' = Vec3 10 20 2" by auto
  with h1 h2 r m show ?thesis by blast
qed

text \<open>
  C2 fails on the code for a scaled object. The prism scaled by 2 along X stands on the
  edge between the vertices 0 and 3, its cached world matrix up to date. \<^verbatim>\<open>layObjectFlat\<close>
  takes the slanted face (vertices 0, 1, 4, 3), with the normal stored in the hull, which
  is not the normal of the scaled face, and turns the object by the shortest arc for that
  stored normal. After the call the vertices of the chosen face are at the heights
  168/25, 0, 0 and 168/25 above the bed: the object rests on the edge between the
  vertices 1 and 4 and the chosen face is tilted. The chosen normal, carried through the
  object's world transform after the update, has a component across the down direction.
\<close>

theorem layObjectFlat_leaves_scaled_prism_tilted:
  "updateMatrixWorld (Mat4 (- 1) 0 0 150  0 0 1 0  0 1 0 (- 150))
     (Object3D (Vec3 100 100 0) (Quat 0 0 0 1) (Vec3 2 1 1)
        (Mat4 (- 2) 0 0 50  0 0 1 0  0 1 0 (- 50)) (Some prism) [])
   = Object3D (Vec3 100 100 0) (Quat 0 0 0 1) (Vec3 2 1 1)
        (Mat4 (- 2) 0 0 50  0 0 1 0  0 1 0 (- 50)) (Some prism) []
   \<and> hull_heights (Mat4 (- 1) 0 0 150  0 0 1 0  0 1 0 (- 150))
     (Object3D (Vec3 100 100 0) (Quat 0 0 0 1) (Vec3 2 1 1)
        (Mat4 (- 2) 0 0 50  0 0 1 0  0 1 0 (- 50)) (Some prism) [])
     = [0, 24, 24, 0, 24, 24]
   \<and> layflat_candidates (Mat4 (- 1) 0 0 150  0 0 1 0  0 1 0 (- 150))
     (Object3D (Vec3 100 100 0) (Quat 0 0 0 1) (Vec3 2 1 1)
        (Mat4 (- 2) 0 0 50  0 0 1 0  0 1 0 (- 50)) (Some prism) [])
     = Inr (Quat 0 (sqrt 2 / 2) (sqrt 2 / 2) 0,
         [\<lparr>angle = arccos (7 / 25), cnormal = Vec3 (24 / 25) 0 (- (7 / 25))\<rparr>,
          \<lparr>angle = arccos (7 / 25), cnormal = Vec3 (24 / 25) 0 (- (7 / 25))\<rparr>,
          \<lparr>angle = pi / 2, cnormal = Vec3 0 (- 1) 0\<rparr>,
          \<lparr>angle = pi / 2, cnormal = Vec3 (- 1) 0 0\<rparr>,
          \<lparr>angle = pi / 2, cnormal = Vec3 (- 1) 0 0\<rparr>])
   \<and> layObjectFlat (Mat4 (- 1) 0 0 150  0 0 1 0  0 1 0 (- 150))
     (Object3D (Vec3 100 100 0) (Quat 0 0 0 1) (Vec3 2 1 1)
        (Mat4 (- 2) 0 0 50  0 0 1 0  0 1 0 (- 50)) (Some prism) [])
     = Inr (Object3D (Vec3 100 100 (168 / 25)) (Quat 0 (3 / 5) 0 (4 / 5)) (Vec3 2 1 1)
        (Mat4 (- (14 / 25)) 0 (- (24 / 25)) 50  (- (48 / 25)) 0 (7 / 25) 0  0 1 0 (- 50))
        (Some prism) [])
   \<and> hull_heights (Mat4 (- 1) 0 0 150  0 0 1 0  0 1 0 (- 150))
        (updateMatrixWorld (Mat4 (- 1) 0 0 150  0 0 1 0  0 1 0 (- 150))
           (Object3D (Vec3 100 100 (168 / 25)) (Quat 0 (3 / 5) 0 (4 / 5)) (Vec3 2 1 1)
        (Mat4 (- (14 / 25)) 0 (- (24 / 25)) 50  (- (48 / 25)) 0 (7 / 25) 0  0 1 0 (- 50))
        (Some prism) []))
     = [168 / 25, 0, 336 / 25, 168 / 25, 0, 336 / 25]
   \<and> carry_direction
        (matrixWorld (updateMatrixWorld (Mat4 (- 1) 0 0 150  0 0 1 0  0 1 0 (- 150))
           (Object3D (Vec3 100 100 (168 / 25)) (Quat 0 (3 / 5) 0 (4 / 5)) (Vec3 2 1 1)
        (Mat4 (- (14 / 25)) 0 (- (24 / 25)) 50  (- (48 / 25)) 0 (7 / 25) 0  0 1 0 (- 50))
        (Some prism) [])))
        (Vec3 (24 / 25) 0 (- (7 / 25)))
     = Vec3 (- (168 / 625)) (- (1201 / 625)) 0"
  by (simp only: scaled_fresh scaled_heights scaled_candidates scaled_run scaled_heights_after
        scaled_carry simp_thms)

text \<open>
  C3: on a hull with at least one vertex \<^verbatim>\<open>findLowestPoint\<close>, started without a previous
  result, returns a vertex of that hull with its index and its bed-space height; no hull
  vertex is lower, and every vertex before it in the hull's order is strictly higher, so
  among equally low vertices the first one is returned.
\<close>

theorem findLowestPoint_first_minimum:
  assumes "vertices geometry \<noteq> []"
  shows "\<exists>lp. findLowestPoint bedRelative object geometry None = Some lp
      \<and> lp_object lp = object
      \<and> lp_index lp < length (vertices geometry)
      \<and> lp_vertex lp = vertices geometry ! lp_index lp
      \<and> lp_z lp = vz (localToBed bedRelative object (lp_vertex lp))
      \<and> (\<forall>j<length (vertices geometry).
            lp_z lp \<le> vz (localToBed bedRelative object (vertices geometry ! j)))
      \<and> (\<forall>j<lp_index lp.
            lp_z lp < vz (localToBed bedRelative object (vertices geometry ! j)))"
  using forEach_vertex_None[OF assms, of bedRelative object 0]
  by (auto simp: findLowestPoint_def)

theorem findLowestPoint_first_minimum_witness:
  "vertices \<lparr>vertices = [Vec3 0 0 0, Vec3 1 0 (- 2), Vec3 0 1 (- 2)], faces = []\<rparr> \<noteq> []
   \<and> (\<exists>lp. findLowestPoint (Mat4 (- 1) 0 0 150  0 0 1 0  0 1 0 (- 150))
               (Object3D (Vec3 10 20 5) (Quat 0 0 0 1) (Vec3 1 1 1)
                  (Mat4 (- 1) 0 0 140  0 0 1 5  0 1 0 (- 130)) None [])
               \<lparr>vertices = [Vec3 0 0 0, Vec3 1 0 (- 2), Vec3 0 1 (- 2)], faces = []\<rparr> None = Some lp
          \<and> lp_index lp = 1 \<and> lp_z lp = 3 \<and> lp_vertex lp = Vec3 1 0 (- 2))"
proof -
  let ?B = "Mat4 (- 1) 0 0 150  0 0 1 0  0 1 0 (- 150)"
  let ?O = "Object3D (Vec3 10 20 5) (Quat 0 0 0 1) (Vec3 1 1 1)
              (Mat4 (- 1) 0 0 140  0 0 1 5  0 1 0 (- 130)) None []"
  let ?G = "\<lparr>vertices = [Vec3 0 0 0, Vec3 1 0 (- 2), Vec3 0 1 (- 2)], faces = []\<rparr>"
  have h: "vertices ?G \<noteq> []" by simp
  have z: "vz (localToBed ?B ?O (Vec3 0 0 0)) = 5" "vz (localToBed ?B ?O (Vec3 1 0 (- 2))) = 3"
    "vz (localToBed ?B ?O (Vec3 0 1 (- 2))) = 3"
    by (simp_all add: localToBed_def worldToLocal_def localToWorld_def getInverse_def
          determinant_def applyMatrix4_def Let_def)
  from findLowestPoint_first_minimum[OF h, of ?B ?O] obtain lp where
    r: "findLowestPoint ?B ?O ?G None = Some lp"
    and i: "lp_index lp < length (vertices ?G)"
    and v: "lp_vertex lp = vertices ?G ! lp_index lp"
    and zlp: "lp_z lp = vz (localToBed ?B ?O (lp_vertex lp))"
    and lo: "\<forall>j<length (vertices ?G). lp_z lp \<le> vz (localToBed ?B ?O (vertices ?G ! j))"
    and first: "\<forall>j<lp_index lp. lp_z lp < vz (localToBed ?B ?O (vertices ?G ! j))"
    by blast
  have "lp_z lp \<le> 3" using lo[rule_format, of 1] z by simp
  have i1: "lp_index lp = 1"
  proof -
    from i have "lp_index lp = 0 \<or> lp_index lp = 1 \<or> lp_index lp = 2" by auto
    then show ?thesis
    proof (elim disjE)
      assume "lp_index lp = 0"
      then show ?thesis using v zlp z \<open>lp_z lp \<le> 3\<close> by simp
    next
      assume "lp_index lp = 1"
      then show ?thesis .
    next
      assume two: "lp_index lp = 2"
      then have "lp_z lp < vz (localToBed ?B ?O (vertices ?G ! 1))"
        using first[rule_format, of 1] by simp
      then show ?thesis using two v zlp z by simp
    qed
  qed
  have "lp_z lp = 3" "lp_vertex lp = Vec3 1 0 (- 2)"
    using i1 v zlp z by simp_all
  with h r i1 show ?thesis by blast
qed


text \<open>
  C5: under the same conditions as C1 a first call of \<^verbatim>\<open>dropObjectToFloor\<close> succeeds, a
  second call on its result succeeds as well, and the second call returns the position
  the first call left.
\<close>

theorem dropObjectToFloor_idempotent:
  assumes "determinant bedRelative \<noteq> 0"
    and "hull_points obj \<noteq> []"
  shows "\<exists>obj1 obj2. dropObjectToFloor bedRelative obj = Inr obj1
           \<and> dropObjectToFloor bedRelative obj1 = Inr obj2
           \<and> position obj2 = position obj1"
proof -
  let ?zs = "local_heights identity obj"
  from dropObjectToFloor_heights[OF assms] obtain obj1 where
    res: "dropObjectToFloor bedRelative obj = Inr obj1"
    and hs: "local_heights identity obj1 = map (\<lambda>h. h - Min (set ?zs)) ?zs"
    by blast
  have ne1: "hull_points obj1 \<noteq> []"
    using local_heights_nonempty[OF assms(2), of identity] hs
          length_local_heights[of identity obj1]
    by (metis length_0_conv length_map)
  have "Min (set (local_heights identity obj1)) = Min (set ?zs) - Min (set ?zs)"
    by (simp only: hs Min_shift[OF local_heights_nonempty[OF assms(2)]])
  then have min1: "Min (set (local_heights identity obj1)) = 0"
    by simp
  from dropObjectToFloor_heights[OF assms(1) ne1] obtain obj2 where
    res2: "dropObjectToFloor bedRelative obj1 = Inr obj2"
    and pos2: "position obj2 = Vec3 (vx (position obj1)) (vy (position obj1))
                 (vz (position obj1) - Min (set (local_heights identity obj1)))"
    by blast
  have "position obj2 = position obj1"
    by (simp add: pos2 min1)
  then show ?thesis using res res2 by blast
qed


theorem dropObjectToFloor_idempotent_witness:
  "determinant (Mat4 (- 1) 0 0 150  0 0 1 0  0 1 0 (- 150)) \<noteq> 0
   \<and> hull_points (Object3D (Vec3 0 0 0) (Quat 0 0 0 1) (Vec3 1 1 1) identity None
         [Object3D (Vec3 10 20 5) (Quat 0 0 0 1) (Vec3 2 2 2) identity
            (Some \<lparr>vertices = [Vec3 0 0 0, Vec3 1 0 (- 2)], faces = []\<rparr>) []]) \<noteq> []
   \<and> (\<exists>obj1 obj2.
         dropObjectToFloor (Mat4 (- 1) 0 0 150  0 0 1 0  0 1 0 (- 150))
           (Object3D (Vec3 0 0 0) (Quat 0 0 0 1) (Vec3 1 1 1) identity None
             [Object3D (Vec3 10 20 5) (Quat 0 0 0 1) (Vec3 2 2 2) identity
                (Some \<lparr>vertices = [Vec3 0 0 0, Vec3 1 0 (- 2)], faces = []\<rparr>) []]) = Inr obj1
         \<and> dropObjectToFloor (Mat4 (- 1) 0 0 150  0 0 1 0  0 1 0 (- 150)) obj1 = Inr obj2
         \<and> position obj1 = Vec3 0 0 (- 1)
         \<and> position obj2 = Vec3 0 0 (- 1))"
proof -
  let ?B = "Mat4 (- 1) 0 0 150  0 0 1 0  0 1 0 (- 150)"
  let ?O = "Object3D (Vec3 0 0 0) (Quat 0 0 0 1) (Vec3 1 1 1) identity None
         [Object3D (Vec3 10 20 5) (Quat 0 0 0 1) (Vec3 2 2 2) identity
            (Some \<lparr>vertices = [Vec3 0 0 0, Vec3 1 0 (- 2)], faces = []\<rparr>) []]"
  have h1: "determinant ?B \<noteq> 0" by (simp add: determinant_def)
  have h2: "hull_points ?O \<noteq> []" by simp
  have run: "\<exists>o1. dropObjectToFloor ?B ?O = Inr o1 \<and> position o1 = Vec3 0 0 (- 1)"
    by (simp add: dropObjectToFloor_def findLowestPoint_def localToBed_def worldToLocal_def
          localToWorld_def getInverse_def determinant_def compose_def multiplyMatrices_def
          applyMatrix4_def identity_def Let_def)
  from dropObjectToFloor_idempotent[OF h1 h2] obtain obj1 obj2 where
    r1: "dropObjectToFloor ?B ?O = Inr obj1"
    and r2: "dropObjectToFloor ?B obj1 = Inr obj2"
    and same: "position obj2 = position obj1"
    by blast
  from run r1 have "position obj1 = Vec3 0 0 (- 1)" by auto
  with h1 h2 r1 r2 same show ?thesis by metis
qed

text \<open>
  C6, at the input where the code and the claim part: a box that stays inside a
  300 x 300 x 300 volume in X and Y but rises to Z = 400. The claim asks for the warning
  (the maximum Z exceeds the height); \<^verbatim>\<open>setPrintBounds\<close> compares the maximum Y with the
  height a second time, never reads the maximum Z, and hides the warning. In a
  300 x 300 x 100 volume a box that reaches Y = 150 and Z = 50 is inside, and the same
  comparison shows the warning.
\<close>

theorem setPrintBounds_ignores_max_z:
  "outside_print_volume \<lparr>bmin = Vec3 0 0 0, bmax = Vec3 10 10 400\<rparr> 300 300 300
   \<and> \<not> setPrintBounds \<lparr>bmin = Vec3 0 0 0, bmax = Vec3 10 10 400\<rparr> 300 300 300
   \<and> \<not> outside_print_volume \<lparr>bmin = Vec3 0 0 0, bmax = Vec3 10 150 50\<rparr> 300 300 100
   \<and> setPrintBounds \<lparr>bmin = Vec3 0 0 0, bmax = Vec3 10 150 50\<rparr> 300 300 100"
  by (simp add: outside_print_volume_def setPrintBounds_def)

text \<open>
  C7, as the code has it: in every reachable state at most one packing run is in flight;
  \<^verbatim>\<open>arrangeObjectsOnPlatform\<close> succeeds there, destroys the run in flight (if any) before it
  constructs and starts the new one, and leaves the new run as the only one in flight,
  held by \<^verbatim>\<open>packer\<close>; \<^verbatim>\<open>selectNone\<close> makes no call on the packing library and leaves the
  run and \<^verbatim>\<open>packer\<close> as they are.
\<close>

theorem one_packing_run:
  assumes "reachable s"
  shows "length (running s) \<le> 1
     \<and> (\<exists>t p. arrangeObjectsOnPlatform s = Inr t
           \<and> running t = [p] \<and> packer t = Some p \<and> p \<notin> set (running s)
           \<and> calls t = calls s @ map Destroy (running s) @ [New p, Update p])
     \<and> running (selectNone s) = running s \<and> packer (selectNone s) = packer s
     \<and> calls (selectNone s) = calls s"
proof -
  have inv: "packer_inv s" using assms by (rule reachable_inv)
  have one: "length (running s) \<le> 1"
    using inv by (auto simp: packer_inv_def split: option.splits)
  from arrange_calls[OF refl inv] have
    "\<exists>t p. arrangeObjectsOnPlatform s = Inr t
           \<and> running t = [p] \<and> packer t = Some p \<and> p \<notin> set (running s)
           \<and> calls t = calls s @ map Destroy (running s) @ [New p, Update p]"
    by blast
  with one show ?thesis by (simp add: selectNone_def)
qed

theorem one_packing_run_witness:
  "reachable \<lparr>objects = [], selection = [], packer = Some 0, running = [0],
              calls = [New 0, Update 0]\<rparr>
   \<and> arrangeObjectsOnPlatform \<lparr>objects = [], selection = [], packer = Some 0, running = [0],
              calls = [New 0, Update 0]\<rparr>
       = Inr \<lparr>objects = [], selection = [], packer = Some 3, running = [3],
              calls = [New 0, Update 0, Destroy 0, New 3, Update 3]\<rparr>
   \<and> length (running \<lparr>objects = [], selection = [], packer = Some 3, running = [3],
              calls = [New 0, Update 0, Destroy 0, New 3, Update 3]\<rparr>) \<le> 1"
proof -
  let ?s1 = "\<lparr>objects = [], selection = [], packer = Some 0, running = [0],
              calls = [New 0, Update 0]\<rparr>"
  let ?s2 = "\<lparr>objects = [], selection = [], packer = Some 3, running = [3],
              calls = [New 0, Update 0, Destroy 0, New 3, Update 3]\<rparr>"
  have r1: "reachable ?s1" using reachable_stage1 by (simp add: stage1_def)
  have a: "arrangeObjectsOnPlatform ?s1 = Inr ?s2"
    by (simp add: arrangeObjectsOnPlatform_def packingFinished_def selectNone_def new_packer_def)
  have r2: "reachable ?s2" using r1 a by (rule reachable.arrange)
  from one_packing_run[OF r2] have "length (running ?s2) \<le> 1" by blast
  with r1 a show ?thesis by blast
qed


text \<open>
  C7 as stated fails for the two other triggers: with run 0 in flight (the state reached
  by one arrangement from the initial Stage), \<^verbatim>\<open>selectNone\<close> and \<^verbatim>\<open>removeObjects\<close> both
  leave run 0 in flight and call nothing on the packing library.
\<close>

theorem selectNone_keeps_packer_running:
  "reachable \<lparr>objects = [], selection = [], packer = Some 0, running = [0],
              calls = [New 0, Update 0]\<rparr>
   \<and> running (selectNone \<lparr>objects = [], selection = [], packer = Some 0, running = [0],
              calls = [New 0, Update 0]\<rparr>) = [0]
   \<and> calls (selectNone \<lparr>objects = [], selection = [], packer = Some 0, running = [0],
              calls = [New 0, Update 0]\<rparr>) = [New 0, Update 0]
   \<and> running (removeObjects \<lparr>objects = [], selection = [], packer = Some 0, running = [0],
              calls = [New 0, Update 0]\<rparr>) = [0]
   \<and> calls (removeObjects \<lparr>objects = [], selection = [], packer = Some 0, running = [0],
              calls = [New 0, Update 0]\<rparr>) = [New 0, Update 0]"
  using reachable_stage1 by (simp add: stage1_def selectNone_def removeObjects_def)

text \<open>
  C8: for every selection and every axis name, when \<^verbatim>\<open>stage.onTransformEdit\<close> leaves the
  scale of the selection as it finds it, one call of \<^verbatim>\<open>onMirrorAxis\<close> on X, Y or Z negates
  the scale component of that axis, and two calls in succession give back the
  selection's scale, sign included.
\<close>

theorem onMirrorAxis_self_inverse:
  assumes "\<And>t. sel_scale (onTransformEdit t) = sel_scale t"
  shows "sel_scale (onMirrorAxis onTransformEdit axis (onMirrorAxis onTransformEdit axis s))
           = sel_scale s
         \<and> (axis \<in> {''X'', ''Y'', ''Z''} \<longrightarrow>
              axis_component axis (sel_scale (onMirrorAxis onTransformEdit axis s))
                = - axis_component axis (sel_scale s))"
  using assms by (simp add: onMirrorAxis_def axis_component_def)

theorem onMirrorAxis_self_inverse_witness:
  "sel_scale (onMirrorAxis (\<lambda>t. t\<lparr>sel_position := Vec3 0 0 0\<rparr>) ''X''
      (onMirrorAxis (\<lambda>t. t\<lparr>sel_position := Vec3 0 0 0\<rparr>) ''X''
         \<lparr>sel_position = Vec3 1 2 3, sel_rotation = Vec3 0 0 0, sel_scale = Vec3 2 (- 3) 1\<rparr>))
     = Vec3 2 (- 3) 1
   \<and> axis_component ''X'' (sel_scale (onMirrorAxis (\<lambda>t. t\<lparr>sel_position := Vec3 0 0 0\<rparr>) ''X''
         \<lparr>sel_position = Vec3 1 2 3, sel_rotation = Vec3 0 0 0, sel_scale = Vec3 2 (- 3) 1\<rparr>))
     = - 2"
  using onMirrorAxis_self_inverse
          [of "\<lambda>t. t\<lparr>sel_position := Vec3 0 0 0\<rparr>" "''X''"
              "\<lparr>sel_position = Vec3 1 2 3, sel_rotation = Vec3 0 0 0, sel_scale = Vec3 2 (- 3) 1\<rparr>"]
  by (simp add: axis_component_def)

text \<open>
  C9: the constructor fails with a \<^verbatim>\<open>ReferenceError\<close> on \<^verbatim>\<open>min\<close> for every circular
  printer, and for every printer that is not circular it returns a representation whose
  floor is the plane of the printer's width and depth.
\<close>

theorem PrinterRepresentation_circular_fails:
  "(circular p \<longrightarrow> PrinterRepresentation p = Inl (ReferenceError ''min''))
   \<and> (\<not> circular p \<longrightarrow>
        (\<exists>r. PrinterRepresentation p = Inr r
           \<and> floor_geometry r = PlaneBufferGeometry (x_width p) (y_depth p) 1))"
  by (simp add: PrinterRepresentation_def bed_geometry_of_def resolve_def global_scope_def)

theorem PrinterRepresentation_circular_fails_witness:
  "PrinterRepresentation
     \<lparr>circular = True, origin_at_center = True, x_width = 200, y_depth = 200, z_height = 250\<rparr>
     = Inl (ReferenceError ''min'')
   \<and> (\<exists>r. PrinterRepresentation
        \<lparr>circular = False, origin_at_center = False, x_width = 300, y_depth = 300, z_height = 300\<rparr>
          = Inr r \<and> floor_geometry r = PlaneBufferGeometry 300 300 1)"
  using PrinterRepresentation_circular_fails
          [of "\<lparr>circular = True, origin_at_center = True, x_width = 200, y_depth = 200, z_height = 250\<rparr>"]
        PrinterRepresentation_circular_fails
          [of "\<lparr>circular = False, origin_at_center = False, x_width = 300, y_depth = 300, z_height = 300\<rparr>"]
  by simp

text \<open>
  C10: when every object's geometry and world-matrix references and the bed frame's
  world-matrix reference are valid, \<^verbatim>\<open>getAllGeometry\<close> returns one address per object, in
  order; each is a new cell holding the object's vertices transformed by the inverse of
  the bed frame's world matrix times the object's world matrix, with the bounding box of
  the result; and every cell of the store that existed before the call is unchanged, so
  each object's geometry, world matrix, position, quaternion and scale are as before.
\<close>

theorem getAllGeometry_bakes_clones:
  assumes "\<forall>obj\<in>set objs. well_formed s bedRelative obj"
  shows "\<exists>geometries s'. getAllGeometry bedRelative s objs = Inr (geometries, s')
           \<and> length geometries = length objs
           \<and> (\<forall>a<length s. s' ! a = s ! a)
           \<and> (\<forall>i<length objs.
                 length s \<le> geometries ! i
                 \<and> s' ! (geometries ! i) = baked s bedRelative (objs ! i))"
proof -
  from getAllGeometry_result[OF assms] obtain gs s' where
    r: "getAllGeometry bedRelative s objs = Inr (gs, s')"
    and lg: "length gs = length objs"
    and t: "take (length s) s' = s"
    and each: "\<forall>i<length objs.
                 length s \<le> gs ! i \<and> gs ! i < length s'
                 \<and> s' ! (gs ! i) = baked s bedRelative (objs ! i)"
    by blast
  have "\<forall>a<length s. s' ! a = s ! a"
    using take_nth[OF t] by blast
  with r lg each show ?thesis by blast
qed

theorem getAllGeometry_bakes_clones_witness:
  "well_formed
        [Matrix4Cell (Mat4 (- 1) 0 0 150  0 0 1 0  0 1 0 (- 150)),
         GeometryCell [Vec3 0 0 0, Vec3 1 0 (- 2)] NotComputed,
         Matrix4Cell (Mat4 (- 1) 0 0 140  0 0 1 5  0 1 0 (- 130)),
         Vector3Cell (Vec3 10 20 5), QuaternionCell (Quat 0 0 0 1), Vector3Cell (Vec3 1 1 1)]
        0 \<lparr>geometry_at = 1, matrixWorld_at = 2, position_at = 3, quaternion_at = 4, scale_at = 5\<rparr>
   \<and> (\<exists>s'. getAllGeometry 0
        [Matrix4Cell (Mat4 (- 1) 0 0 150  0 0 1 0  0 1 0 (- 150)),
         GeometryCell [Vec3 0 0 0, Vec3 1 0 (- 2)] NotComputed,
         Matrix4Cell (Mat4 (- 1) 0 0 140  0 0 1 5  0 1 0 (- 130)),
         Vector3Cell (Vec3 10 20 5), QuaternionCell (Quat 0 0 0 1), Vector3Cell (Vec3 1 1 1)]
        [\<lparr>geometry_at = 1, matrixWorld_at = 2, position_at = 3, quaternion_at = 4, scale_at = 5\<rparr>]
        = Inr ([6], s')
      \<and> s' ! 6 = GeometryCell [Vec3 10 20 5, Vec3 11 20 3]
                    (Box \<lparr>bmin = Vec3 10 20 3, bmax = Vec3 11 20 5\<rparr>)
      \<and> s' ! 1 = GeometryCell [Vec3 0 0 0, Vec3 1 0 (- 2)] NotComputed
      \<and> s' ! 2 = Matrix4Cell (Mat4 (- 1) 0 0 140  0 0 1 5  0 1 0 (- 130)))"
proof -
  let ?s = "[Matrix4Cell (Mat4 (- 1) 0 0 150  0 0 1 0  0 1 0 (- 150)),
         GeometryCell [Vec3 0 0 0, Vec3 1 0 (- 2)] NotComputed,
         Matrix4Cell (Mat4 (- 1) 0 0 140  0 0 1 5  0 1 0 (- 130)),
         Vector3Cell (Vec3 10 20 5), QuaternionCell (Quat 0 0 0 1), Vector3Cell (Vec3 1 1 1)]"
  let ?o = "\<lparr>geometry_at = 1, matrixWorld_at = 2, position_at = 3, quaternion_at = 4, scale_at = 5\<rparr>"
  have h: "\<forall>obj\<in>set [?o]. well_formed ?s 0 obj"
    by (simp add: well_formed_def)
  have bk: "baked ?s 0 ?o = GeometryCell [Vec3 10 20 5, Vec3 11 20 3]
                    (Box \<lparr>bmin = Vec3 10 20 3, bmax = Vec3 11 20 5\<rparr>)"
    by (simp add: baked_def getInverse_def determinant_def multiplyMatrices_def applyMatrix4_def
          setFromPoints_def Let_def)
  from getAllGeometry_bakes_clones[OF h] obtain gs s' where
    r: "getAllGeometry 0 ?s [?o] = Inr (gs, s')"
    and lg: "length gs = length [?o]"
    and frame: "\<forall>a<length ?s. s' ! a = ?s ! a"
    and each: "\<forall>i<length [?o]. length ?s \<le> gs ! i \<and> s' ! (gs ! i) = baked ?s 0 ([?o] ! i)"
    by blast
  have "getAllGeometry 0 ?s [?o] = Inr ([6], s')"
  proof -
    obtain t where "bake 0 ?s ?o = Inr (6, t)"
      using bake_result[of ?s 0 ?o] h by auto
    then show ?thesis using r by (auto split: sum.splits prod.splits)
  qed
  moreover have "s' ! 6 = baked ?s 0 ?o"
    using each r calculation by auto
  moreover have "s' ! 1 = ?s ! 1" "s' ! 2 = ?s ! 2"
    using frame by simp_all
  moreover have "well_formed ?s 0 ?o" using h by simp
  ultimately show ?thesis using bk by simp
qed

end
